theory Spec2Isabelle
  imports Complex_Main
begin

section \<open>Errors and numbers\<close>

text \<open>
  The exceptions that the code of \<^verbatim>\<open>train_cifar.py\<close> can raise by itself: a failed
  \<^verbatim>\<open>assert\<close>, a Python division or modulo by zero, an out-of-range index into a NumPy
  array, and the errors that the tensor library raises when a layer rejects the shape of its input.
\<close>

datatype py_error = AssertionError | ZeroDivisionError | IndexError | ValueError | RuntimeError

text \<open>
  A NumPy \<^verbatim>\<open>float64\<close>, abstracted: a finite value is an exact rational (rounding is not
  modelled; all counts involved are far below \<open>2^53\<close>), and the three non-finite values are
  kept apart. Signed zeros are not modelled.
\<close>

datatype npfloat = Fin rat | PosInf | NegInf | NaN

text \<open>NumPy's \<^verbatim>\<open>a / b\<close> on floats: division by zero does not raise, it yields an
  infinity or NaN.\<close>

fun np_divide :: "npfloat \<Rightarrow> npfloat \<Rightarrow> npfloat" where
  "np_divide (Fin a) (Fin b) =
     (if b \<noteq> 0 then Fin (a / b)
      else if a = 0 then NaN
      else if 0 < a then PosInf else NegInf)"
| "np_divide NaN _ = NaN"
| "np_divide _ NaN = NaN"
| "np_divide (Fin a) _ = Fin 0"
| "np_divide PosInf (Fin b) = (if 0 \<le> b then PosInf else NegInf)"
| "np_divide NegInf (Fin b) = (if 0 \<le> b then NegInf else PosInf)"
| "np_divide _ _ = NaN"

fun np_add :: "npfloat \<Rightarrow> npfloat \<Rightarrow> npfloat" where
  "np_add (Fin a) (Fin b) = Fin (a + b)"
| "np_add NaN _ = NaN"
| "np_add _ NaN = NaN"
| "np_add PosInf NegInf = NaN"
| "np_add NegInf PosInf = NaN"
| "np_add PosInf _ = PosInf"
| "np_add _ PosInf = PosInf"
| "np_add NegInf _ = NegInf"
| "np_add _ NegInf = NegInf"

text \<open>\<^verbatim>\<open>a.sum()\<close> of a one-dimensional float array.\<close>

definition np_sum :: "npfloat list \<Rightarrow> npfloat" where
  "np_sum xs = foldl np_add (Fin 0) xs"

text \<open>Indexing a one-dimensional NumPy array of length \<open>n\<close> with an integer: a negative
  index counts from the end, anything outside \<open>[-n, n)\<close> raises \<^verbatim>\<open>IndexError\<close>.\<close>

definition np_index :: "nat \<Rightarrow> int \<Rightarrow> py_error + nat" where
  "np_index n i =
     (if 0 \<le> i \<and> i < int n then Inr (nat i)
      else if - int n \<le> i \<and> i < 0 then Inr (nat (int n + i))
      else Inl IndexError)"

section \<open>Metrics utilities\<close>

text \<open>\<^verbatim>\<open>(labels == preds).sum()\<close> for two one-dimensional integer arrays of the same
  length: the number of positions that agree.\<close>

definition eq_count :: "int list \<Rightarrow> int list \<Rightarrow> nat" where
  "eq_count labels preds = length (filter (\<lambda>(l, p). l = p) (zip labels preds))"

text \<open>
  \<^verbatim>\<open>
  def compute_accuracy(labels, preds) -> float:
      assert len(labels) == len(preds)
      return float((labels == preds).sum()) / len(labels)
  \<close>
  The quotient is Python's float division, which raises on a zero divisor.
\<close>

definition compute_accuracy :: "int list \<Rightarrow> int list \<Rightarrow> py_error + rat" where
  "compute_accuracy labels preds =
     (if length labels \<noteq> length preds then Inl AssertionError
      else if length labels = 0 then Inl ZeroDivisionError
      else Inr (of_nat (eq_count labels preds) / of_nat (length labels)))"

text \<open>
  \<^verbatim>\<open>
  def compute_per_class_accuracy(labels, preds) -> [float]:
      assert len(labels) == len(preds)
      classes = np.zeros(len(np.unique(labels)))
      f_v = np.zeros(len(classes))
      for i in range(len(labels)):
          f_v[labels[i]] += 1
          if labels[i] == preds[i]:
              classes[labels[i]] += 1
      return classes/f_v
  \<close>
  The two arrays hold counts, kept as naturals. The loop runs over the positions of both
  sequences, which have the same length once the assertion has passed.
\<close>

fun per_class_loop ::
  "(int \<times> int) list \<Rightarrow> nat list \<times> nat list \<Rightarrow> py_error + (nat list \<times> nat list)" where
  "per_class_loop [] (classes, f_v) = Inr (classes, f_v)"
| "per_class_loop ((l, p) # rest) (classes, f_v) =
     (case np_index (length f_v) l of
        Inl e \<Rightarrow> Inl e
      | Inr j \<Rightarrow>
          (let f_v' = f_v[j := f_v ! j + 1] in
           if l = p then
             (case np_index (length classes) l of
                Inl e \<Rightarrow> Inl e
              | Inr k \<Rightarrow> per_class_loop rest (classes[k := classes ! k + 1], f_v'))
           else per_class_loop rest (classes, f_v')))"

definition compute_per_class_accuracy :: "int list \<Rightarrow> int list \<Rightarrow> py_error + npfloat list" where
  "compute_per_class_accuracy labels preds =
     (if length labels \<noteq> length preds then Inl AssertionError
      else
        (let classes = replicate (length (remdups labels)) (0::nat);
             f_v = replicate (length classes) (0::nat)
         in case per_class_loop (zip labels preds) (classes, f_v) of
              Inl e \<Rightarrow> Inl e
            | Inr (classes', f_v') \<Rightarrow>
                Inr (map2 (\<lambda>c f. np_divide (Fin (of_nat c)) (Fin (of_nat f))) classes' f_v')))"

text \<open>What the specification speaks of: the number of examples of a class, and the number
  of those that were predicted as that class.\<close>

definition class_total :: "int list \<Rightarrow> int \<Rightarrow> nat" where
  "class_total labels c = length (filter (\<lambda>l. l = c) labels)"

definition class_correct :: "int list \<Rightarrow> int list \<Rightarrow> int \<Rightarrow> nat" where
  "class_correct labels preds c =
     length (filter (\<lambda>(l, p). l = c \<and> p = c) (zip labels preds))"

section \<open>The model\<close>

text \<open>
  The network is modelled at the level of tensor shapes. A batch of images has the shape
  \<open>(N, C, H, W)\<close>; after flattening a batch has the shape \<open>(N, features)\<close>. The layers are
  those of the tensor library; what is written here of them is how they map and reject shapes.
  Weights, their initialisation and the values of activations are not modelled.
\<close>

type_synonym shape4 = "nat \<times> nat \<times> nat \<times> nat"
type_synonym shape2 = "nat \<times> nat"

record ImageShape =
  height :: nat
  width :: nat
  channels :: nat

text \<open>\<^verbatim>\<open>nn.Conv2d(in_channels, out_channels, kernel_size, padding)\<close>, stride 1.\<close>

datatype conv2d = Conv2d nat nat "nat \<times> nat" "nat \<times> nat"

text \<open>\<^verbatim>\<open>nn.BatchNorm2d(num_features)\<close> and \<^verbatim>\<open>nn.BatchNorm1d(num_features)\<close>.\<close>

datatype batchnorm2d = BatchNorm2d nat
datatype batchnorm1d = BatchNorm1d nat

text \<open>\<^verbatim>\<open>nn.MaxPool2d(kernel_size, stride)\<close>, \<^verbatim>\<open>nn.Linear(in_features, out_features)\<close>
  and \<^verbatim>\<open>nn.Dropout(p)\<close>.\<close>

datatype maxpool2d = MaxPool2d "nat \<times> nat" "nat \<times> nat"
datatype linear = Linear nat nat
datatype dropout_layer = Dropout rat

text \<open>A convolution rejects an input whose channel count is not its \<open>in_channels\<close>, and one
  that, padded, is smaller than the kernel.\<close>

fun conv2d_shape :: "conv2d \<Rightarrow> shape4 \<Rightarrow> py_error + shape4" where
  "conv2d_shape (Conv2d cin cout (kh, kw) (ph, pw)) (n, c, h, w) =
     (if c \<noteq> cin then Inl RuntimeError
      else if h + 2 * ph < kh \<or> w + 2 * pw < kw then Inl RuntimeError
      else Inr (n, cout, h + 2 * ph - kh + 1, w + 2 * pw - kw + 1))"

text \<open>
  Batch normalisation keeps the shape. In training mode the library first checks that there
  is more than one value per channel (the product of all dimensions but the channel dimension
  is not 1) and raises \<^verbatim>\<open>ValueError\<close> otherwise; then the channel count must be
  \<open>num_features\<close>.
\<close>

fun batchnorm2d_shape :: "batchnorm2d \<Rightarrow> bool \<Rightarrow> shape4 \<Rightarrow> py_error + shape4" where
  "batchnorm2d_shape (BatchNorm2d num_features) training (n, c, h, w) =
     (if training \<and> n * h * w = 1 then Inl ValueError
      else if c \<noteq> num_features then Inl RuntimeError
      else Inr (n, c, h, w))"

fun batchnorm1d_shape :: "batchnorm1d \<Rightarrow> bool \<Rightarrow> shape2 \<Rightarrow> py_error + shape2" where
  "batchnorm1d_shape (BatchNorm1d num_features) training (n, c) =
     (if training \<and> n = 1 then Inl ValueError
      else if c \<noteq> num_features then Inl RuntimeError
      else Inr (n, c))"

fun maxpool2d_shape :: "maxpool2d \<Rightarrow> shape4 \<Rightarrow> py_error + shape4" where
  "maxpool2d_shape (MaxPool2d (kh, kw) (sh, sw)) (n, c, h, w) =
     (if sh = 0 \<or> sw = 0 \<or> h < kh \<or> w < kw then Inl RuntimeError
      else Inr (n, c, (h - kh) div sh + 1, (w - kw) div sw + 1))"

fun linear_shape :: "linear \<Rightarrow> shape2 \<Rightarrow> py_error + shape2" where
  "linear_shape (Linear in_features out_features) (n, f) =
     (if f \<noteq> in_features then Inl RuntimeError else Inr (n, out_features))"

text \<open>\<^verbatim>\<open>torch.flatten(x, start_dim=1)\<close>; \<^verbatim>\<open>f.relu\<close> and dropout keep the shape.\<close>

fun flatten :: "shape4 \<Rightarrow> shape2" where
  "flatten (n, c, h, w) = (n, c * h * w)"

definition relu :: "'s \<Rightarrow> 's" where
  "relu x = x"

definition dropout_shape :: "dropout_layer \<Rightarrow> 's \<Rightarrow> 's" where
  "dropout_shape d x = x"

text \<open>The fields of the class \<^verbatim>\<open>CNN\<close>; \<open>training\<close> is the mode flag that every module
  of the library carries, set by \<^verbatim>\<open>train()\<close> and \<^verbatim>\<open>eval()\<close> and true after
  construction.\<close>

record CNN =
  input_shape :: ImageShape
  class_count :: nat
  conv1 :: conv2d
  batch1 :: batchnorm2d
  pool1 :: maxpool2d
  conv2 :: conv2d
  batch2 :: batchnorm2d
  pool2 :: maxpool2d
  fc1 :: linear
  batchFc :: batchnorm1d
  fc2 :: linear
  dropout :: dropout_layer
  training :: bool

text \<open>
  \<^verbatim>\<open>CNN.__init__(height, width, channels, class_count, dropout)\<close>. The layers are built with
  the constants of the source; \<^verbatim>\<open>nn.Dropout\<close> raises \<^verbatim>\<open>ValueError\<close> for a probability
  outside \<open>[0, 1]\<close>.
  \<^verbatim>\<open>
  self.conv1 = nn.Conv2d(in_channels=self.input_shape.channels, out_channels=32,
                         kernel_size=(5, 5), padding=(2, 2))
  self.batch1 = nn.BatchNorm2d(num_features=32)
  self.pool1 = nn.MaxPool2d(kernel_size=(2, 2), stride=(2, 2))
  self.conv2 = nn.Conv2d(in_channels=32, out_channels=64, kernel_size=(5, 5), padding=(2, 2))
  self.batch2 = nn.BatchNorm2d(num_features=64)
  self.pool2 = nn.MaxPool2d(kernel_size=(2, 2), stride=(2, 2))
  self.fc1 = nn.Linear(4096, 1024)
  self.batchFc = nn.BatchNorm1d(num_features=1024)
  self.fc2 = nn.Linear(1024, 10)
  self.dropout = nn.Dropout(p=dropout)
  \<close>
\<close>

definition CNN_init :: "nat \<Rightarrow> nat \<Rightarrow> nat \<Rightarrow> nat \<Rightarrow> rat \<Rightarrow> py_error + CNN" where
  "CNN_init height' width' channels' class_count' dropout' =
     (if dropout' < 0 \<or> 1 < dropout' then Inl ValueError
      else Inr \<lparr>
        input_shape = \<lparr>height = height', width = width', channels = channels'\<rparr>,
        class_count = class_count',
        conv1 = Conv2d channels' 32 (5, 5) (2, 2),
        batch1 = BatchNorm2d 32,
        pool1 = MaxPool2d (2, 2) (2, 2),
        conv2 = Conv2d 32 64 (5, 5) (2, 2),
        batch2 = BatchNorm2d 64,
        pool2 = MaxPool2d (2, 2) (2, 2),
        fc1 = Linear 4096 1024,
        batchFc = BatchNorm1d 1024,
        fc2 = Linear 1024 10,
        dropout = Dropout dropout',
        training = True\<rparr>)"

text \<open>
  \<^verbatim>\<open>
  def forward(self, images):
      x = f.relu(self.batch1(self.conv1(images)))
      x = self.pool1(x)
      x = f.relu(self.batch2(self.conv2(x)))
      x = self.pool2(x)
      x = torch.flatten(x, start_dim=1)
      x = self.fc1(self.dropout(x))
      x = self.batchFc(x)
      x = self.fc2(self.dropout(x))
      return x
  \<close>
\<close>

definition forward :: "CNN \<Rightarrow> shape4 \<Rightarrow> py_error + shape2" where
  "forward self images =
     (case conv2d_shape (conv1 self) images of Inl e \<Rightarrow> Inl e | Inr x \<Rightarrow>
      case batchnorm2d_shape (batch1 self) (training self) x of Inl e \<Rightarrow> Inl e | Inr x \<Rightarrow>
      case maxpool2d_shape (pool1 self) (relu x) of Inl e \<Rightarrow> Inl e | Inr x \<Rightarrow>
      case conv2d_shape (conv2 self) x of Inl e \<Rightarrow> Inl e | Inr x \<Rightarrow>
      case batchnorm2d_shape (batch2 self) (training self) x of Inl e \<Rightarrow> Inl e | Inr x \<Rightarrow>
      case maxpool2d_shape (pool2 self) (relu x) of Inl e \<Rightarrow> Inl e | Inr x \<Rightarrow>
      case linear_shape (fc1 self) (dropout_shape (dropout self) (flatten x)) of
        Inl e \<Rightarrow> Inl e | Inr x \<Rightarrow>
      case batchnorm1d_shape (batchFc self) (training self) x of Inl e \<Rightarrow> Inl e | Inr x \<Rightarrow>
      linear_shape (fc2 self) (dropout_shape (dropout self) x))"

text \<open>\<^verbatim>\<open>model.train()\<close> and \<^verbatim>\<open>model.eval()\<close> on the network.\<close>

definition train_mode :: "CNN \<Rightarrow> CNN" where
  "train_mode self = self\<lparr>training := True\<rparr>"

definition eval_mode :: "CNN \<Rightarrow> CNN" where
  "eval_mode self = self\<lparr>training := False\<rparr>"

section \<open>The trainer\<close>

text \<open>
  What the trainer does to the outside is kept as a trace, in the order of the calls: the
  mode switches of the model (\<^verbatim>\<open>model.train()\<close>, \<^verbatim>\<open>model.eval()\<close>), the calls to the
  summary writer (\<^verbatim>\<open>add_scalar(tag, value, step)\<close> and
  \<^verbatim>\<open>add_scalars(main_tag, {key: value}, step)\<close>) and the two kinds of printed lines.
  A logged value is an integer, a float, or a measured wall-clock duration, which is not
  modelled further.
\<close>

datatype scalar = IntVal int | FloatVal npfloat | Elapsed

datatype event =
    ModelTrain
  | ModelEval
  | AddScalar string scalar int
  | AddScalars string string scalar int
  | PrintMetrics int int nat rat rat
  | PrintValidation rat "npfloat list"

text \<open>
  The collaborators the trainer is constructed with, as far as the trainer uses them. The
  type \<open>'w\<close> stands for everything the optimizer and the forward pass mutate (parameters,
  gradient and momentum buffers, running statistics, random state), \<open>'x\<close> for a batch of
  images and \<open>'g\<close> for a batch of logits. A data loader is the finite sequence of
  (batch, labels) pairs that one pass over it yields. The collaborators are taken to return;
  their own failures are outside this model.
\<close>

record ('w, 'x, 'g) collaborators =
  model_forward :: "'w \<Rightarrow> bool \<Rightarrow> 'x \<Rightarrow> 'g"
  argmax :: "'g \<Rightarrow> int list"
  criterion :: "'g \<Rightarrow> int list \<Rightarrow> rat"
  optimizer_step :: "'w \<Rightarrow> 'g \<Rightarrow> int list \<Rightarrow> 'w"
  train_loader :: "('x \<times> int list) list"
  val_loader :: "('x \<times> int list) list"

text \<open>The mutable state of a \<^verbatim>\<open>Trainer\<close>: the model with its mode flag, the global
  step counter, and the trace so far.\<close>

record 'w Trainer =
  model :: 'w
  model_training :: bool
  step :: int
  trace :: "event list"

text \<open>\<^verbatim>\<open>Trainer.__init__\<close> sets \<^verbatim>\<open>self.step = 0\<close>; the model comes with the mode it
  has.\<close>

definition Trainer_init :: "'w \<Rightarrow> bool \<Rightarrow> 'w Trainer" where
  "Trainer_init m mode = \<lparr>model = m, model_training = mode, step = 0, trace = []\<rparr>"

definition model_train :: "'w Trainer \<Rightarrow> 'w Trainer" where
  "model_train self = self\<lparr>model_training := True, trace := trace self @ [ModelTrain]\<rparr>"

definition model_eval :: "'w Trainer \<Rightarrow> 'w Trainer" where
  "model_eval self = self\<lparr>model_training := False, trace := trace self @ [ModelEval]\<rparr>"

definition add_scalar :: "string \<Rightarrow> scalar \<Rightarrow> int \<Rightarrow> 'w Trainer \<Rightarrow> 'w Trainer" where
  "add_scalar tag v global_step self = self\<lparr>trace := trace self @ [AddScalar tag v global_step]\<rparr>"

definition add_scalars :: "string \<Rightarrow> string \<Rightarrow> scalar \<Rightarrow> int \<Rightarrow> 'w Trainer \<Rightarrow> 'w Trainer" where
  "add_scalars main_tag key v global_step self =
     self\<lparr>trace := trace self @ [AddScalars main_tag key v global_step]\<rparr>"

definition print_line :: "event \<Rightarrow> 'w Trainer \<Rightarrow> 'w Trainer" where
  "print_line ev self = self\<lparr>trace := trace self @ [ev]\<rparr>"

text \<open>
  \<^verbatim>\<open>
  def log_metrics(self, epoch, accuracy, loss, data_load_time, step_time):
      self.summary_writer.add_scalar("epoch", epoch, self.step)
      self.summary_writer.add_scalars("accuracy", {"train": accuracy}, self.step)
      self.summary_writer.add_scalars("loss", {"train": float(loss.item())}, self.step)
      self.summary_writer.add_scalar("time/data", data_load_time, self.step)
      self.summary_writer.add_scalar("time/data", step_time, self.step)
  \<close>
\<close>

definition log_metrics :: "int \<Rightarrow> rat \<Rightarrow> rat \<Rightarrow> 'w Trainer \<Rightarrow> 'w Trainer" where
  "log_metrics epoch accuracy loss self =
     (let self = add_scalar ''epoch'' (IntVal epoch) (step self) self;
          self = add_scalars ''accuracy'' ''train'' (FloatVal (Fin accuracy)) (step self) self;
          self = add_scalars ''loss'' ''train'' (FloatVal (Fin loss)) (step self) self;
          self = add_scalar ''time/data'' Elapsed (step self) self
      in add_scalar ''time/data'' Elapsed (step self) self)"

text \<open>
  \<^verbatim>\<open>
  def print_metrics(self, epoch, accuracy, loss, data_load_time, step_time):
      epoch_step = self.step % len(self.train_loader)
      print(f"epoch: [{epoch}], " f"step: [{epoch_step}/{len(self.train_loader)}], " ...)
  \<close>
\<close>

definition print_metrics ::
  "('w, 'x, 'g) collaborators \<Rightarrow> int \<Rightarrow> rat \<Rightarrow> rat \<Rightarrow> 'w Trainer \<Rightarrow> py_error + 'w Trainer" where
  "print_metrics c epoch accuracy loss self =
     (if length (train_loader c) = 0 then Inl ZeroDivisionError
      else
        (let epoch_step = step self mod int (length (train_loader c))
         in Inr (print_line
               (PrintMetrics epoch epoch_step (length (train_loader c)) loss accuracy) self)))"

text \<open>
  The body of the loop over the training batches.
  \<^verbatim>\<open>
  logits = self.model.forward(batch)
  loss = self.criterion(logits, labels)
  loss.backward()
  self.optimizer.step()
  self.optimizer.zero_grad()
  with torch.no_grad():
      preds = logits.argmax(-1)
      accuracy = compute_accuracy(labels, preds)
  if ((self.step + 1) % log_frequency) == 0:
      self.log_metrics(epoch, accuracy, loss, data_load_time, step_time)
  if ((self.step + 1) % print_frequency) == 0:
      self.print_metrics(epoch, accuracy, loss, data_load_time, step_time)
  self.step += 1
  \<close>
  Python's \<^verbatim>\<open>%\<close> raises on a zero divisor and otherwise agrees with \<open>mod\<close> on integers.
\<close>

definition train_batch ::
  "('w, 'x, 'g) collaborators \<Rightarrow> int \<Rightarrow> int \<Rightarrow> int \<Rightarrow> 'w Trainer \<Rightarrow> 'x \<times> int list
     \<Rightarrow> py_error + 'w Trainer" where
  "train_batch c print_frequency log_frequency epoch self b =
     (case b of (batch, labels) \<Rightarrow>
      let logits = model_forward c (model self) (model_training self) batch;
          loss = criterion c logits labels;
          self = self\<lparr>model := optimizer_step c (model self) logits labels\<rparr>;
          preds = argmax c logits
      in case compute_accuracy labels preds of
           Inl e \<Rightarrow> Inl e
         | Inr accuracy \<Rightarrow>
             if log_frequency = 0 then Inl ZeroDivisionError
             else
               (let self = (if (step self + 1) mod log_frequency = 0
                            then log_metrics epoch accuracy loss self else self)
                in if print_frequency = 0 then Inl ZeroDivisionError
                   else
                     (case (if (step self + 1) mod print_frequency = 0
                            then print_metrics c epoch accuracy loss self else Inr self) of
                        Inl e \<Rightarrow> Inl e
                      | Inr self \<Rightarrow> Inr (self\<lparr>step := step self + 1\<rparr>))))"

text \<open>\<^verbatim>\<open>for batch, labels in self.train_loader: ...\<close>\<close>

fun train_batches ::
  "('w, 'x, 'g) collaborators \<Rightarrow> int \<Rightarrow> int \<Rightarrow> int \<Rightarrow> ('x \<times> int list) list \<Rightarrow> 'w Trainer
     \<Rightarrow> py_error + 'w Trainer" where
  "train_batches c print_frequency log_frequency epoch [] self = Inr self"
| "train_batches c print_frequency log_frequency epoch (b # rest) self =
     (case train_batch c print_frequency log_frequency epoch self b of
        Inl e \<Rightarrow> Inl e
      | Inr self \<Rightarrow> train_batches c print_frequency log_frequency epoch rest self)"

text \<open>
  \<^verbatim>\<open>
  def validate(self):
      results = {"preds": [], "labels": []}
      total_loss = 0
      self.model.eval()
      with torch.no_grad():
          for batch, labels in self.val_loader:
              logits = self.model(batch)
              loss = self.criterion(logits, labels)
              total_loss += loss.item()
              preds = logits.argmax(dim=-1).cpu().numpy()
              results["preds"].extend(list(preds))
              results["labels"].extend(list(labels.cpu().numpy()))
      accuracy = compute_per_class_accuracy(
          np.array(results["labels"]), np.array(results["preds"]))
      per_class_accuracy = [f"{i}:{accuracy[i]}" for i in range(len(accuracy))]
      average_loss = total_loss / len(self.val_loader)
      self.summary_writer.add_scalars("accuracy", {"test": accuracy.sum()/len(accuracy)}, self.step)
      self.summary_writer.add_scalars("loss", {"test": average_loss}, self.step)
      print(f"validation loss: {average_loss:.5f}, accuracy: {per_class_accuracy}")
  \<close>
  The loop carries the predictions, the labels and the summed loss.
\<close>

fun validate_loop ::
  "('w, 'x, 'g) collaborators \<Rightarrow> 'w \<Rightarrow> bool \<Rightarrow> ('x \<times> int list) list
     \<Rightarrow> int list \<times> int list \<times> rat \<Rightarrow> int list \<times> int list \<times> rat" where
  "validate_loop c w mode [] results = results"
| "validate_loop c w mode ((batch, labels) # rest) (preds_all, labels_all, total_loss) =
     (let logits = model_forward c w mode batch;
          loss = criterion c logits labels;
          preds = argmax c logits
      in validate_loop c w mode rest (preds_all @ preds, labels_all @ labels, total_loss + loss))"

definition validate :: "('w, 'x, 'g) collaborators \<Rightarrow> 'w Trainer \<Rightarrow> py_error + 'w Trainer" where
  "validate c self =
     (let self = model_eval self
      in case validate_loop c (model self) (model_training self) (val_loader c) ([], [], 0) of
           (preds_all, labels_all, total_loss) \<Rightarrow>
             (case compute_per_class_accuracy labels_all preds_all of
                Inl e \<Rightarrow> Inl e
              | Inr accuracy \<Rightarrow>
                  if length (val_loader c) = 0 then Inl ZeroDivisionError
                  else
                    (let average_loss = total_loss / of_nat (length (val_loader c));
                         self = add_scalars ''accuracy'' ''test''
                                  (FloatVal (np_divide (np_sum accuracy)
                                     (Fin (of_nat (length accuracy))))) (step self) self;
                         self = add_scalars ''loss'' ''test''
                                  (FloatVal (Fin average_loss)) (step self) self
                     in Inr (print_line (PrintValidation average_loss accuracy) self))))"

text \<open>
  The body of the loop over the epochs.
  \<^verbatim>\<open>
  self.model.train()
  for batch, labels in self.train_loader: ...
  self.summary_writer.add_scalar("epoch", epoch, self.step)
  if ((epoch + 1) % val_frequency) == 0:
      self.validate()
      self.model.train()
  \<close>
\<close>

definition train_epoch ::
  "('w, 'x, 'g) collaborators \<Rightarrow> int \<Rightarrow> int \<Rightarrow> int \<Rightarrow> 'w Trainer \<Rightarrow> int
     \<Rightarrow> py_error + 'w Trainer" where
  "train_epoch c val_frequency print_frequency log_frequency self epoch =
     (let self = model_train self
      in case train_batches c print_frequency log_frequency epoch (train_loader c) self of
           Inl e \<Rightarrow> Inl e
         | Inr self \<Rightarrow>
             (let self = add_scalar ''epoch'' (IntVal epoch) (step self) self
              in if val_frequency = 0 then Inl ZeroDivisionError
                 else if (epoch + 1) mod val_frequency = 0 then
                   (case validate c self of
                      Inl e \<Rightarrow> Inl e
                    | Inr self \<Rightarrow> Inr (model_train self))
                 else Inr self))"

fun train_epochs ::
  "('w, 'x, 'g) collaborators \<Rightarrow> int \<Rightarrow> int \<Rightarrow> int \<Rightarrow> int list \<Rightarrow> 'w Trainer
     \<Rightarrow> py_error + 'w Trainer" where
  "train_epochs c val_frequency print_frequency log_frequency [] self = Inr self"
| "train_epochs c val_frequency print_frequency log_frequency (epoch # rest) self =
     (case train_epoch c val_frequency print_frequency log_frequency self epoch of
        Inl e \<Rightarrow> Inl e
      | Inr self \<Rightarrow> train_epochs c val_frequency print_frequency log_frequency rest self)"

text \<open>
  \<^verbatim>\<open>
  def train(self, epochs, val_frequency, print_frequency=20, log_frequency=5, start_epoch=0):
      self.model.train()
      for epoch in range(start_epoch, epochs): ...
  \<close>
  \<^verbatim>\<open>range(start_epoch, epochs)\<close> is the list of integers from \<open>start_epoch\<close> to
  \<open>epochs - 1\<close>.
\<close>

definition train ::
  "('w, 'x, 'g) collaborators \<Rightarrow> int \<Rightarrow> int \<Rightarrow> int \<Rightarrow> int \<Rightarrow> int \<Rightarrow> 'w Trainer
     \<Rightarrow> py_error + 'w Trainer" where
  "train c epochs val_frequency print_frequency log_frequency start_epoch self =
     train_epochs c val_frequency print_frequency log_frequency [start_epoch..epochs - 1]
       (model_train self)"

subsection \<open>Conditions on the data and readings of the trace\<close>

text \<open>The model predicts one class index per example of a batch, whatever its parameters
  and mode.\<close>

definition predicts_per_example ::
  "('w, 'x, 'g) collaborators \<Rightarrow> ('x \<times> int list) list \<Rightarrow> bool" where
  "predicts_per_example c batches =
     (\<forall>(batch, labels) \<in> set batches. \<forall>w mode.
        length (argmax c (model_forward c w mode batch)) = length labels)"

text \<open>No training batch is empty (a data loader yields none).\<close>

definition train_data_ok :: "('w, 'x, 'g) collaborators \<Rightarrow> bool" where
  "train_data_ok c =
     (predicts_per_example c (train_loader c)
      \<and> (\<forall>(batch, labels) \<in> set (train_loader c). labels \<noteq> []))"

text \<open>All labels and all predictions of one pass over the validation data.\<close>

definition val_labels :: "('w, 'x, 'g) collaborators \<Rightarrow> int list" where
  "val_labels c = concat (map snd (val_loader c))"

definition val_preds :: "('w, 'x, 'g) collaborators \<Rightarrow> 'w \<Rightarrow> int list" where
  "val_preds c w =
     concat (map (\<lambda>(batch, labels). argmax c (model_forward c w False batch)) (val_loader c))"

text \<open>The validation data has at least one batch, and every validation label indexes inside
  the arrays of \<^const>\<open>compute_per_class_accuracy\<close>, which have one entry per distinct label.\<close>

definition val_data_ok :: "('w, 'x, 'g) collaborators \<Rightarrow> bool" where
  "val_data_ok c =
     (val_loader c \<noteq> []
      \<and> predicts_per_example c (val_loader c)
      \<and> (\<forall>l \<in> set (val_labels c).
            np_index (length (remdups (val_labels c))) l \<noteq> Inl IndexError))"

text \<open>
  The validations that a trace shows. Each call of \<^verbatim>\<open>validate\<close> begins with the only
  \<^verbatim>\<open>model.eval()\<close> of the program; it is attributed to the epoch index that was last
  written to the summary writer under the tag \<^verbatim>\<open>epoch\<close> (none, if there was none).
\<close>

fun validations :: "int option \<Rightarrow> event list \<Rightarrow> int option list" where
  "validations cur [] = []"
| "validations cur (AddScalar tag (IntVal e) st # rest) =
     validations (if tag = ''epoch'' then Some e else cur) rest"
| "validations cur (ModelEval # rest) = cur # validations cur rest"
| "validations cur (ev # rest) = validations cur rest"

text \<open>
  Every validation is followed by a switch back to training mode before the training loop does
  anything else: while a validation is pending its switch, the trace shows nothing but the
  outputs of \<^verbatim>\<open>validate\<close>, and no validation is pending at the end.
\<close>

fun back_to_training :: "bool \<Rightarrow> event list \<Rightarrow> bool" where
  "back_to_training pending [] = (\<not> pending)"
| "back_to_training pending (ModelEval # rest) = back_to_training True rest"
| "back_to_training pending (ModelTrain # rest) = back_to_training False rest"
| "back_to_training pending (AddScalars tag key v st # rest) =
     ((key = ''test'' \<or> \<not> pending) \<and> back_to_training pending rest)"
| "back_to_training pending (PrintValidation l a # rest) = back_to_training pending rest"
| "back_to_training pending (ev # rest) = (\<not> pending \<and> back_to_training pending rest)"

text \<open>The values logged as validation accuracy.\<close>

fun test_accuracy :: "event list \<Rightarrow> scalar list" where
  "test_accuracy [] = []"
| "test_accuracy (AddScalars tag key v st # rest) =
     (if tag = ''accuracy'' \<and> key = ''test'' then [v] else []) @ test_accuracy rest"
| "test_accuracy (ev # rest) = test_accuracy rest"

text \<open>A small instance for examples: a batch is a list of integers, the model predicts each
  of them as it is, the loss is zero and the optimizer changes nothing.\<close>

definition echo :: "(int list \<times> int list) list \<Rightarrow> (int list \<times> int list) list
    \<Rightarrow> (unit, int list, int list) collaborators" where
  "echo train_batches' val_batches' =
     \<lparr>model_forward = (\<lambda>w mode batch. batch), argmax = (\<lambda>logits. logits),
      criterion = (\<lambda>logits labels. 0), optimizer_step = (\<lambda>w logits labels. w),
      train_loader = train_batches', val_loader = val_batches'\<rparr>"

subsection \<open>The shape of a training trace\<close>

text \<open>What a training batch of epoch \<open>e\<close> may write: scalars under the tag \<^verbatim>\<open>epoch\<close>
  with value \<open>e\<close>, measured durations, scalars of the \<^verbatim>\<open>train\<close> series, and progress
  lines.\<close>

fun train_event :: "int \<Rightarrow> event \<Rightarrow> bool" where
  "train_event e (AddScalar tag v st) = (v = Elapsed \<or> (tag = ''epoch'' \<and> v = IntVal e))"
| "train_event e (AddScalars tag key v st) = (key = ''train'')"
| "train_event e (PrintMetrics ep es n l a) = True"
| "train_event e ev = False"

text \<open>What a validation followed by the switch back writes.\<close>

definition validation_events :: "event list \<Rightarrow> bool" where
  "validation_events R =
     (\<exists>a b st l acc. R = [ModelEval, AddScalars ''accuracy'' ''test'' a st,
        AddScalars ''loss'' ''test'' b st, PrintValidation l acc, ModelTrain])"

text \<open>What one epoch writes, and what a sequence of epochs writes.\<close>

definition epoch_trace :: "int \<Rightarrow> int \<Rightarrow> event list \<Rightarrow> bool" where
  "epoch_trace V e T =
     (\<exists>B st R. T = ModelTrain # B @ AddScalar ''epoch'' (IntVal e) st # R
        \<and> list_all (train_event e) B
        \<and> (if (e + 1) mod V = 0 then validation_events R else R = []))"

fun epochs_trace :: "int \<Rightarrow> int list \<Rightarrow> event list \<Rightarrow> bool" where
  "epochs_trace V [] T = (T = [])"
| "epochs_trace V (e # es) T =
     (\<exists>T1 T2. T = T1 @ T2 \<and> epoch_trace V e T1 \<and> epochs_trace V es T2)"

section \<open>Run-directory naming\<close>

text \<open>Python's \<^verbatim>\<open>str\<close> of an integer: decimal digits, a minus sign for a negative one.\<close>

definition digit_char :: "nat \<Rightarrow> char" where
  "digit_char d = ''0123456789'' ! d"

fun str_nat :: "nat \<Rightarrow> string" where
  "str_nat n = (if n < 10 then [digit_char n] else str_nat (n div 10) @ [digit_char (n mod 10)])"

definition str_int :: "int \<Rightarrow> string" where
  "str_int i = (if i < 0 then CHR ''-'' # str_nat (nat (- i)) else str_nat (nat i))"

text \<open>
  What the function takes from outside this repository, as parameters: \<^verbatim>\<open>pathlib\<close>'s
  joining of a directory and a name (\<^verbatim>\<open>dir / name\<close>), the existence test on the file
  system as it is during the call, the rendering of a path as a string, and the rendering of a
  float inside an f-string.
\<close>

record ('p, 'f) platform =
  joinpath :: "'p \<Rightarrow> string \<Rightarrow> 'p"
  path_exists :: "'p \<Rightarrow> bool"
  str_path :: "'p \<Rightarrow> string"
  str_float :: "'f \<Rightarrow> string"

text \<open>The fields of the parsed command line that the function reads.\<close>

record ('p, 'f) args =
  log_dir :: 'p
  batch_size :: int
  dropout :: 'f
  learning_rate :: 'f
  brightness :: 'f
  isHFlip :: bool
  reflectionPadding :: int

text \<open>
  \<^verbatim>\<open>
  tb_log_dir_prefix = (
      f'CNN_parameters={n_parameters}' f'_bn_bs={args.batch_size}' f'_dropout={args.dropout}'
      f'_lr={args.learning_rate}' f'_momentum=0.9' f"_brightness={args.brightness}" +
      ("_hflip" if args.isHFlip else "") +
      (f"_reflect={args.reflectionPadding}" if args.reflectionPadding > 0 else "") +
      f'_run_')
  \<close>
\<close>

definition tb_log_dir_prefix :: "('p, 'f) platform \<Rightarrow> ('p, 'f) args \<Rightarrow> int \<Rightarrow> string" where
  "tb_log_dir_prefix os args n_parameters =
     ''CNN_parameters='' @ str_int n_parameters
     @ ''_bn_bs='' @ str_int (batch_size args)
     @ ''_dropout='' @ str_float os (dropout args)
     @ ''_lr='' @ str_float os (learning_rate args)
     @ ''_momentum=0.9''
     @ ''_brightness='' @ str_float os (brightness args)
     @ (if isHFlip args then ''_hflip'' else '''')
     @ (if reflectionPadding args > 0 then ''_reflect='' @ str_int (reflectionPadding args) else '''')
     @ ''_run_''"

text \<open>
  \<^verbatim>\<open>
  i = 0
  tb_log_dir = args.log_dir / (tb_log_dir_prefix + str(i))
  while i < 1000:
      tb_log_dir = args.log_dir / (tb_log_dir_prefix + str(i))
      if not tb_log_dir.exists():
          return str(tb_log_dir)
      i += 1
  return str(tb_log_dir)
  \<close>
\<close>

function log_dir_loop ::
  "('p, 'f) platform \<Rightarrow> ('p, 'f) args \<Rightarrow> string \<Rightarrow> int \<Rightarrow> 'p \<Rightarrow> string" where
  "log_dir_loop os args pre i tb_log_dir =
     (if i < 1000 then
        (let tb_log_dir = joinpath os (log_dir args) (pre @ str_int i) in
         if \<not> path_exists os tb_log_dir then str_path os tb_log_dir
         else log_dir_loop os args pre (i + 1) tb_log_dir)
      else str_path os tb_log_dir)"
  by pat_completeness auto
termination
  by (relation "measure (\<lambda>(os, args, pre, i, tb). nat (1000 - i))") auto

definition get_summary_writer_log_dir ::
  "('p, 'f) platform \<Rightarrow> ('p, 'f) args \<Rightarrow> int \<Rightarrow> string" where
  "get_summary_writer_log_dir os args n_parameters =
     (let pre = tb_log_dir_prefix os args n_parameters;
          i = 0;
          tb_log_dir = joinpath os (log_dir args) (pre @ str_int i)
      in log_dir_loop os args pre i tb_log_dir)"

text \<open>The candidate directory with suffix \<open>i\<close>.\<close>

definition run_dir :: "('p, 'f) platform \<Rightarrow> ('p, 'f) args \<Rightarrow> int \<Rightarrow> int \<Rightarrow> 'p" where
  "run_dir os args n_parameters i =
     joinpath os (log_dir args) (tb_log_dir_prefix os args n_parameters @ str_int i)"

text \<open>A concrete instance for examples: paths are strings joined with a slash, floats are
  given by their rendering, and the command-line defaults of the script.\<close>

definition posix :: "(string \<Rightarrow> bool) \<Rightarrow> (string, string) platform" where
  "posix ex = \<lparr>joinpath = (\<lambda>d n. d @ ''/'' @ n), path_exists = ex, str_path = (\<lambda>p. p), str_float = (\<lambda>s. s)\<rparr>"

definition default_args :: "(string, string) args" where
  "default_args = \<lparr>log_dir = ''logs'', batch_size = 128, dropout = ''0'', learning_rate = ''0.01'',
     brightness = ''0'', isHFlip = False, reflectionPadding = 0\<rparr>"

section \<open>Properties of the metrics utilities\<close>

subsection \<open>Auxiliary facts\<close>


lemma eq_count_card:
  "length labels = length preds \<Longrightarrow>
   eq_count labels preds = card {i. i < length labels \<and> labels ! i = preds ! i}"
proof -
  assume len: "length labels = length preds"
  have "eq_count labels preds
      = card {i. i < length (zip labels preds) \<and> (\<lambda>(l, p). l = p) (zip labels preds ! i)}"
    unfolding eq_count_def by (rule length_filter_conv_card)
  also have "{i. i < length (zip labels preds) \<and> (\<lambda>(l, p). l = p) (zip labels preds ! i)}
      = {i. i < length labels \<and> labels ! i = preds ! i}"
    using len by auto
  finally show ?thesis .
qed

lemma eq_count_le: "eq_count labels preds \<le> length labels"
proof -
  have "eq_count labels preds \<le> length (zip labels preds)"
    unfolding eq_count_def by (rule length_filter_le)
  then show ?thesis by simp
qed

lemma eq_count_full:
  "length labels = length preds \<Longrightarrow>
   eq_count labels preds = length labels \<longleftrightarrow> (\<forall>i < length labels. labels ! i = preds ! i)"
proof -
  assume len: "length labels = length preds"
  let ?zs = "zip labels preds"
  have "eq_count labels preds = length labels \<longleftrightarrow> length (filter (\<lambda>(l, p). l = p) ?zs) = length ?zs"
    using len by (simp add: eq_count_def)
  also have "\<dots> \<longleftrightarrow> (\<forall>z \<in> set ?zs. (\<lambda>(l, p). l = p) z)"
  proof
    assume "length (filter (\<lambda>(l, p). l = p) ?zs) = length ?zs"
    then show "\<forall>z \<in> set ?zs. (\<lambda>(l, p). l = p) z"
      using length_filter_less [of _ ?zs "\<lambda>(l, p). l = p"] by fastforce
  next
    assume "\<forall>z \<in> set ?zs. (\<lambda>(l, p). l = p) z"
    then have "filter (\<lambda>(l, p). l = p) ?zs = ?zs" by (simp only: filter_id_conv)
    then show "length (filter (\<lambda>(l, p). l = p) ?zs) = length ?zs" by simp
  qed
  also have "\<dots> \<longleftrightarrow> (\<forall>i < length labels. labels ! i = preds ! i)"
    using len by (auto simp: set_zip)
  finally show ?thesis .
qed

lemma eq_count_none:
  "length labels = length preds \<Longrightarrow>
   eq_count labels preds = 0 \<longleftrightarrow> (\<forall>i < length labels. labels ! i \<noteq> preds ! i)"
proof -
  assume len: "length labels = length preds"
  let ?zs = "zip labels preds"
  have "eq_count labels preds = 0 \<longleftrightarrow> (\<forall>z \<in> set ?zs. \<not> (\<lambda>(l, p). l = p) z)"
    by (simp add: eq_count_def filter_empty_conv)
  also have "\<dots> \<longleftrightarrow> (\<forall>i < length labels. labels ! i \<noteq> preds ! i)"
    using len by (auto simp: set_zip)
  finally show ?thesis .
qed



lemma np_index_in_range: "0 \<le> l \<Longrightarrow> l < int k \<Longrightarrow> np_index k l = Inr (nat l)"
  by (simp add: np_index_def)

lemma np_index_cases:
  "np_index k l = Inl IndexError \<or> (\<exists>j < k. np_index k l = Inr j)"
  by (auto simp: np_index_def)

lemma np_index_error: "int k \<le> l \<Longrightarrow> np_index k l = Inl IndexError"
  by (simp add: np_index_def)

lemma per_class_loop_counts:
  assumes "length classes = k" and "length f_v = k"
    and "\<forall>(l, p) \<in> set zs. 0 \<le> l \<and> l < int k"
  shows "per_class_loop zs (classes, f_v) =
     Inr (map (\<lambda>c. classes ! c + length (filter (\<lambda>(l, p). l = int c \<and> p = int c) zs)) [0..<k],
          map (\<lambda>c. f_v ! c + length (filter (\<lambda>(l, p). l = int c) zs)) [0..<k])"
  using assms
proof (induction zs arbitrary: classes f_v)
  case Nil
  then show ?case using map_nth [of classes] map_nth [of f_v] by auto
next
  case (Cons z zs)
  obtain l p where z: "z = (l, p)" by (cases z)
  from Cons.prems z have l: "0 \<le> l" "l < int k" by auto
  from Cons.prems have rest: "\<forall>(l, p) \<in> set zs. 0 \<le> l \<and> l < int k" by simp
  let ?j = "nat l"
  have j: "?j < k" using l by simp
  have eqj: "\<And>c. (l = int c) = (c = ?j)" using l by auto
  let ?f = "f_v[?j := f_v ! ?j + 1]"
  let ?cl = "if l = p then classes[?j := classes ! ?j + 1] else classes"
  have lens: "length ?cl = k" "length ?f = k" using Cons.prems by simp_all
  have step: "per_class_loop (z # zs) (classes, f_v) = per_class_loop zs (?cl, ?f)"
    using z l Cons.prems(1,2) by (simp add: np_index_in_range Let_def)
  have fv: "map (\<lambda>c. ?f ! c + length (filter (\<lambda>(l, p). l = int c) zs)) [0..<k]
      = map (\<lambda>c. f_v ! c + length (filter (\<lambda>(l, p). l = int c) (z # zs))) [0..<k]"
    using Cons.prems(2) z by (simp add: eqj nth_list_update)
  have cl: "map (\<lambda>c. ?cl ! c + length (filter (\<lambda>(l, p). l = int c \<and> p = int c) zs)) [0..<k]
      = map (\<lambda>c. classes ! c + length (filter (\<lambda>(l, p). l = int c \<and> p = int c) (z # zs))) [0..<k]"
  proof (cases "l = p")
    case True
    then have "\<And>c. (l = int c \<and> p = int c) = (c = ?j)" using l by auto
    then show ?thesis using Cons.prems(1) z True by (simp add: nth_list_update)
  next
    case False
    then have "\<And>c. (l = int c \<and> p = int c) = False" by auto
    then show ?thesis using z False by simp
  qed
  show ?case
    unfolding step Cons.IH [OF lens rest] fv cl ..
qed

lemma per_class_loop_index_error:
  assumes "length classes = k" and "length f_v = k"
    and "\<exists>(l, p) \<in> set zs. np_index k l = Inl IndexError"
  shows "per_class_loop zs (classes, f_v) = Inl IndexError"
  using assms
proof (induction zs arbitrary: classes f_v)
  case Nil
  then show ?case by simp
next
  case (Cons z zs)
  obtain l p where z: "z = (l, p)" by (cases z)
  show ?case
  proof (cases "np_index k l = Inl IndexError")
    case True
    then show ?thesis using z Cons.prems(1,2) by simp
  next
    case False
    then obtain j where j: "np_index k l = Inr j" "j < k"
      using np_index_cases [of k l] by auto
    from False Cons.prems(3) z
    have rest: "\<exists>(l, p) \<in> set zs. np_index k l = Inl IndexError" by auto
    have a: "per_class_loop zs (classes, f_v[j := f_v ! j + 1]) = Inl IndexError"
      using Cons.IH [OF _ _ rest] Cons.prems(1,2) by simp
    have b: "per_class_loop zs (classes[j := classes ! j + 1], f_v[j := f_v ! j + 1]) = Inl IndexError"
      using Cons.IH [OF _ _ rest] Cons.prems(1,2) by simp
    show ?thesis
    proof (cases "l = p")
      case True
      with j(1) have "np_index k p = Inr j" by simp
      with True z j b Cons.prems(1,2) show ?thesis by (simp add: Let_def)
    next
      case False
      with z j a Cons.prems(1,2) show ?thesis by (simp add: Let_def)
    qed
  qed
qed

lemma filter_zip_fst:
  "length xs = length ys \<Longrightarrow>
   length (filter (\<lambda>(l, p). P l) (zip xs ys)) = length (filter P xs)"
  by (induction xs ys rule: list_induct2) simp_all

lemma map2_same_index:
  "map2 f (map g xs) (map h xs) = map (\<lambda>x. f (g x) (h x)) xs"
  by (induction xs) simp_all

lemma class_total_pos: "c \<in> set labels \<Longrightarrow> 0 < class_total labels c"
  by (simp add: class_total_def filter_empty_conv)

lemma per_class_contiguous:
  assumes len: "length labels = length preds" and cont: "set labels = {0..<int k}"
  shows "compute_per_class_accuracy labels preds =
     Inr (map (\<lambda>c. Fin (of_nat (class_correct labels preds (int c))
                        / of_nat (class_total labels (int c)))) [0..<k])"
proof -
  have "card (set labels) = k" using cont by simp
  then have k: "length (remdups labels) = k" by (simp add: length_remdups_card_conv)
  have range: "\<forall>(l, p) \<in> set (zip labels preds). 0 \<le> l \<and> l < int k"
    using cont by (auto dest!: set_zip_leftD)
  have loop: "per_class_loop (zip labels preds) (replicate k 0, replicate k 0) =
     Inr (map (\<lambda>c. class_correct labels preds (int c)) [0..<k],
          map (\<lambda>c. class_total labels (int c)) [0..<k])"
    using per_class_loop_counts [OF _ _ range, of "replicate k 0" "replicate k 0"]
      filter_zip_fst [OF len]
    by (simp add: class_correct_def class_total_def cong: map_cong)
  have pos: "\<And>c. c < k \<Longrightarrow> class_total labels (int c) \<noteq> 0"
    using class_total_pos [of _ labels] cont by fastforce
  show ?thesis
    using len k loop pos
    by (simp add: compute_per_class_accuracy_def map2_same_index cong: map_cong)
qed

lemma per_class_sparse:
  assumes len: "length labels = length preds" and nonneg: "\<forall>l \<in> set labels. 0 \<le> l"
    and m: "m \<in> set labels" and c: "0 \<le> c" "c < m" "c \<notin> set labels"
  shows "compute_per_class_accuracy labels preds = Inl IndexError"
proof -
  let ?k = "length (remdups labels)"
  have k: "card (set labels) = ?k" by (simp add: length_remdups_card_conv)
  have "\<exists>l \<in> set labels. int ?k \<le> l"
  proof (rule ccontr)
    assume "\<not> (\<exists>l \<in> set labels. int ?k \<le> l)"
    with nonneg have sub: "set labels \<subseteq> {0..<int ?k}" by force
    have "card {0..<int ?k} = card (set labels)" using k by simp
    with sub have "set labels = {0..<int ?k}"
      by (intro card_subset_eq) simp_all
    with m c show False by auto
  qed
  then obtain l where l: "l \<in> set labels" "int ?k \<le> l" by blast
  from l(1) len obtain p where "(l, p) \<in> set (zip labels preds)"
    by (metis in_set_impl_in_set_zip1)
  with l(2) have "\<exists>(l, p) \<in> set (zip labels preds). np_index ?k l = Inl IndexError"
    using np_index_error by fastforce
  then have "per_class_loop (zip labels preds) (replicate ?k 0, replicate ?k 0) = Inl IndexError"
    by (intro per_class_loop_index_error [where k = ?k]) simp_all
  then show ?thesis using len by (simp add: compute_per_class_accuracy_def)
qed


subsection \<open>Per-class accuracy\<close>

text \<open>
  C1 (as amended). The arrays are sized by the number of \<^emph>\<open>distinct\<close> labels, not by the maximum
  label. When the labels are exactly the class indices \<open>0, \<dots>, k - 1\<close> (every index up to the
  maximum observed label occurs), \<^const>\<open>compute_per_class_accuracy\<close> returns, for each class
  index from 0 up to the maximum observed label, the fraction of that class's examples that were
  predicted correctly. When the labels are non-negative and some class index below an observed
  label has no occurrence, the function raises \<^verbatim>\<open>IndexError\<close>; it does not produce a NaN
  ratio for that class. For labels \<open>[0,0,1,1]\<close> and predictions \<open>[0,1,1,0]\<close> both classes have
  accuracy one half.
\<close>

theorem compute_per_class_accuracy_contiguous:
  "(length labels = length preds \<and> set labels = {0..<int k} \<longrightarrow>
      compute_per_class_accuracy labels preds =
        Inr (map (\<lambda>c. Fin (of_nat (class_correct labels preds (int c))
                           / of_nat (class_total labels (int c)))) [0..<k]))
   \<and> (length labels = length preds \<and> (\<forall>l \<in> set labels. 0 \<le> l)
        \<and> m \<in> set labels \<and> 0 \<le> c \<and> c < m \<and> c \<notin> set labels \<longrightarrow>
      compute_per_class_accuracy labels preds = Inl IndexError)
   \<and> compute_per_class_accuracy [0, 0, 1, 1] [0, 1, 1, 0] = Inr [Fin (1 / 2), Fin (1 / 2)]"
proof (intro conjI impI)
  assume "length labels = length preds \<and> set labels = {0..<int k}"
  then show "compute_per_class_accuracy labels preds =
        Inr (map (\<lambda>c. Fin (of_nat (class_correct labels preds (int c))
                           / of_nat (class_total labels (int c)))) [0..<k])"
    by (simp add: per_class_contiguous)
next
  assume "length labels = length preds \<and> (\<forall>l \<in> set labels. 0 \<le> l)
        \<and> m \<in> set labels \<and> 0 \<le> c \<and> c < m \<and> c \<notin> set labels"
  then show "compute_per_class_accuracy labels preds = Inl IndexError"
    using per_class_sparse [of labels preds m c] by blast
next
  show "compute_per_class_accuracy [0, 0, 1, 1] [0, 1, 1, 0] = Inr [Fin (1 / 2), Fin (1 / 2)]"
    by (simp add: compute_per_class_accuracy_def np_index_def)
qed

theorem compute_per_class_accuracy_contiguous_witness:
  "length [0, 1, 1 :: int] = length [0, 1, 0 :: int] \<and> set [0, 1, 1 :: int] = {0..<int 2}
   \<and> compute_per_class_accuracy [0, 1, 1] [0, 1, 0] = Inr [Fin 1, Fin (1 / 2)]
   \<and> (2::int) \<in> set [0, 2] \<and> (1::int) \<notin> set [0, 2]
   \<and> compute_per_class_accuracy [0, 2] [0, 0] = Inl IndexError"
proof -
  have a: "set [0, 1, 1 :: int] = {0..<int 2}" by auto
  have b: "length [0, 1, 1 :: int] = length [0, 1, 0 :: int]" by simp
  have c: "\<forall>l \<in> set [0, 2 :: int]. 0 \<le> l" by simp
  from a b compute_per_class_accuracy_contiguous [of "[0, 1, 1]" "[0, 1, 0]" 2 2 1]
  have "compute_per_class_accuracy [0, 1, 1] [0, 1, 0] =
      Inr (map (\<lambda>c. Fin (of_nat (class_correct [0, 1, 1] [0, 1, 0] (int c))
                         / of_nat (class_total [0, 1, 1] (int c)))) [0..<2])"
    by blast
  moreover have "[0..<2] = [0, 1]" by (simp add: upt_rec)
  ultimately have d: "compute_per_class_accuracy [0, 1, 1] [0, 1, 0] = Inr [Fin 1, Fin (1 / 2)]"
    by (simp add: class_correct_def class_total_def)
  from c compute_per_class_accuracy_contiguous [of "[0, 2]" "[0, 0]" 0 2 1]
  have e: "compute_per_class_accuracy [0, 2] [0, 0] = Inl IndexError" by simp
  from a b d e show ?thesis by simp
qed

text \<open>
  The claim as first stated fails: with labels \<open>[0, 2]\<close> class 1 has no occurrence and the
  maximum observed label is 2, yet no list of three ratios with an undefined middle entry is
  returned; the second label indexes past the two-element arrays.
\<close>

theorem compute_per_class_accuracy_sparse_counterexample:
  "compute_per_class_accuracy [0, 2] [0, 2] = Inl IndexError
   \<and> compute_per_class_accuracy [0, 2] [0, 2] \<noteq> Inr [Fin 1, NaN, Fin 1]"
  by (simp add: compute_per_class_accuracy_def np_index_def)

subsection \<open>Overall accuracy\<close>

text \<open>
  C2 (as amended). For every pair of equal-length, non-empty label and prediction sequences,
  \<^const>\<open>compute_accuracy\<close> returns the fraction of positions at which label and prediction
  are equal; the value lies between 0 and 1, is 1 exactly when all pairs match and 0 exactly
  when none does.
\<close>

theorem compute_accuracy_fraction:
  assumes "length labels = length preds" and "labels \<noteq> []"
  shows "\<exists>a. compute_accuracy labels preds = Inr a
     \<and> a = of_nat (card {i. i < length labels \<and> labels ! i = preds ! i}) / of_nat (length labels)
     \<and> 0 \<le> a \<and> a \<le> 1
     \<and> (a = 1 \<longleftrightarrow> (\<forall>i < length labels. labels ! i = preds ! i))
     \<and> (a = 0 \<longleftrightarrow> (\<forall>i < length labels. labels ! i \<noteq> preds ! i))"
proof -
  let ?n = "length labels" and ?c = "eq_count labels preds"
  let ?a = "(of_nat ?c / of_nat ?n) :: rat"
  from assms(2) have n: "0 < ?n" by simp
  have run: "compute_accuracy labels preds = Inr ?a"
    using assms by (cases labels; cases preds) (simp_all add: compute_accuracy_def)
  have frac: "?a = of_nat (card {i. i < ?n \<and> labels ! i = preds ! i}) / of_nat ?n"
    using assms(1) by (simp add: eq_count_card)
  have lo: "0 \<le> ?a" by simp
  have hi: "?a \<le> 1" using n eq_count_le [of labels preds] by (simp add: divide_le_eq)
  have one: "?a = 1 \<longleftrightarrow> (\<forall>i < ?n. labels ! i = preds ! i)"
  proof -
    have "?a = 1 \<longleftrightarrow> ?c = ?n" using n by auto
    then show ?thesis by (simp only: eq_count_full [OF assms(1)])
  qed
  have zero: "?a = 0 \<longleftrightarrow> (\<forall>i < ?n. labels ! i \<noteq> preds ! i)"
  proof -
    have "?a = 0 \<longleftrightarrow> ?c = 0" using n by simp
    then show ?thesis by (simp only: eq_count_none [OF assms(1)])
  qed
  from run frac lo hi one zero show ?thesis by blast
qed


theorem compute_accuracy_fraction_witness:
  "length [0, 1, 2, 1 :: int] = length [0, 2, 2, 1 :: int] \<and> [0, 1, 2, 1 :: int] \<noteq> []
   \<and> compute_accuracy [0, 1, 2, 1] [0, 2, 2, 1] = Inr (3 / 4)"
  using compute_accuracy_fraction [of "[0, 1, 2, 1]" "[0, 2, 2, 1]"]
  by (simp add: compute_accuracy_def eq_count_def)

text \<open>
  The claim as first stated covers the empty pair of sequences, which have equal length and
  in which all pairs match vacuously; there the function returns no value at all.
\<close>

theorem compute_accuracy_empty_counterexample:
  "\<not> (\<exists>a. compute_accuracy [] [] = Inr a)"
  by (simp add: compute_accuracy_def)

text \<open>
  C7. When the two sequences differ in length, \<^const>\<open>compute_accuracy\<close> fails its assertion:
  it returns no value, and in particular does not compare the common prefix.
\<close>

theorem compute_accuracy_length_mismatch:
  "length labels \<noteq> length preds \<Longrightarrow> compute_accuracy labels preds = Inl AssertionError"
  by (simp add: compute_accuracy_def)

theorem compute_accuracy_length_mismatch_witness:
  "length [0, 1 :: int] \<noteq> length [0 :: int] \<and> compute_accuracy [0, 1] [0] = Inl AssertionError"
  using compute_accuracy_length_mismatch [of "[0, 1]" "[0]"] by simp

text \<open>
  C10. On the empty pair of sequences \<^const>\<open>compute_accuracy\<close> passes its assertion and then
  divides by the length zero, which raises \<^verbatim>\<open>ZeroDivisionError\<close>.
\<close>

theorem compute_accuracy_empty:
  "compute_accuracy [] [] = Inl ZeroDivisionError"
  by (simp add: compute_accuracy_def)

section \<open>Properties of the model\<close>

text \<open>The output of \<^const>\<open>forward\<close> on a batch of 32 by 32 images with three channels,
  for a network built with any class count: the last layer always has ten outputs.\<close>

lemma forward_shape_any_class_count:
  assumes "CNN_init 32 32 3 cc p = Inr m" and "2 \<le> N \<or> (1 \<le> N \<and> \<not> t)"
  shows "forward (m\<lparr>training := t\<rparr>) (N, 3, 32, 32) = Inr (N, 10)"
proof -
  from assms(1) have m: "m = \<lparr>
        input_shape = \<lparr>height = 32, width = 32, channels = 3\<rparr>,
        class_count = cc,
        conv1 = Conv2d 3 32 (5, 5) (2, 2),
        batch1 = BatchNorm2d 32,
        pool1 = MaxPool2d (2, 2) (2, 2),
        conv2 = Conv2d 32 64 (5, 5) (2, 2),
        batch2 = BatchNorm2d 64,
        pool2 = MaxPool2d (2, 2) (2, 2),
        fc1 = Linear 4096 1024,
        batchFc = BatchNorm1d 1024,
        fc2 = Linear 1024 10,
        dropout = Dropout p,
        training = True\<rparr>"
    by (auto simp: CNN_init_def split: if_splits)
  from assms(2) have n: "\<not> (t \<and> N = 1)" "\<not> (t \<and> N * 1024 = 1)" "\<not> (t \<and> N * 256 = 1)"
    by auto
  show ?thesis
    unfolding forward_def m using n by (simp add: relu_def dropout_shape_def)
qed

lemma forward_single_training:
  assumes "CNN_init 32 32 3 cc p = Inr m"
  shows "training m \<and> forward m (1, 3, 32, 32) = Inl ValueError"
proof -
  from assms have m: "m = \<lparr>
        input_shape = \<lparr>height = 32, width = 32, channels = 3\<rparr>,
        class_count = cc,
        conv1 = Conv2d 3 32 (5, 5) (2, 2),
        batch1 = BatchNorm2d 32,
        pool1 = MaxPool2d (2, 2) (2, 2),
        conv2 = Conv2d 32 64 (5, 5) (2, 2),
        batch2 = BatchNorm2d 64,
        pool2 = MaxPool2d (2, 2) (2, 2),
        fc1 = Linear 4096 1024,
        batchFc = BatchNorm1d 1024,
        fc2 = Linear 1024 10,
        dropout = Dropout p,
        training = True\<rparr>"
    by (auto simp: CNN_init_def split: if_splits)
  show ?thesis
    unfolding forward_def m by (simp add: relu_def dropout_shape_def)
qed

lemma CNN_init_ok:
  "0 \<le> p \<Longrightarrow> p \<le> 1 \<Longrightarrow> \<exists>m. CNN_init h w c cc p = Inr m \<and> class_count m = cc"
  by (simp add: CNN_init_def)

text \<open>
  C3 (as amended). For a network constructed with class count 10, as the script constructs it,
  and an input of shape \<open>(N, 3, 32, 32)\<close> with \<open>N \<ge> 1\<close>, \<^const>\<open>forward\<close> produces the shape
  \<open>(N, class_count)\<close> whenever the network is in evaluation mode or \<open>N \<ge> 2\<close>. For \<open>N = 1\<close> in
  training mode, the mode of a freshly constructed network, the batch normalisation after the
  first fully connected layer raises \<^verbatim>\<open>ValueError\<close>.
\<close>

theorem forward_output_shape:
  "(0 \<le> p \<and> p \<le> 1 \<and> (2 \<le> N \<or> (1 \<le> N \<and> \<not> t)) \<longrightarrow>
      (\<exists>m. CNN_init 32 32 3 10 p = Inr m
         \<and> forward (m\<lparr>training := t\<rparr>) (N, 3, 32, 32) = Inr (N, class_count m)))
   \<and> (0 \<le> p \<and> p \<le> 1 \<longrightarrow>
      (\<exists>m. CNN_init 32 32 3 10 p = Inr m \<and> training m
         \<and> forward m (1, 3, 32, 32) = Inl ValueError))"
proof (intro conjI impI)
  assume a: "0 \<le> p \<and> p \<le> 1 \<and> (2 \<le> N \<or> (1 \<le> N \<and> \<not> t))"
  then obtain m where m: "CNN_init 32 32 3 10 p = Inr m" "class_count m = 10"
    using CNN_init_ok [of p 32 32 3 10] by blast
  from a have "forward (m\<lparr>training := t\<rparr>) (N, 3, 32, 32) = Inr (N, 10)"
    by (intro forward_shape_any_class_count [OF m(1)]) simp
  with m show "\<exists>m. CNN_init 32 32 3 10 p = Inr m
         \<and> forward (m\<lparr>training := t\<rparr>) (N, 3, 32, 32) = Inr (N, class_count m)"
    by simp
next
  assume "0 \<le> p \<and> p \<le> 1"
  then obtain m where m: "CNN_init 32 32 3 10 p = Inr m"
    using CNN_init_ok [of p 32 32 3 10] by blast
  with forward_single_training [OF m]
  show "\<exists>m. CNN_init 32 32 3 10 p = Inr m \<and> training m
         \<and> forward m (1, 3, 32, 32) = Inl ValueError"
    by simp
qed

theorem forward_output_shape_witness:
  "(0::rat) \<le> 1 / 2 \<and> (1 / 2 :: rat) \<le> 1 \<and> (2::nat) \<le> 128
   \<and> (\<exists>m. CNN_init 32 32 3 10 (1 / 2) = Inr m
         \<and> forward (m\<lparr>training := True\<rparr>) (128, 3, 32, 32) = Inr (128, class_count m))
   \<and> (\<exists>m. CNN_init 32 32 3 10 (1 / 2) = Inr m \<and> training m
         \<and> forward m (1, 3, 32, 32) = Inl ValueError)"
  using forward_output_shape [of "1 / 2" 128 True] by simp

text \<open>
  The claim as first stated fails in two ways. A network constructed with class count 5 maps
  two images to the shape \<open>(2, 10)\<close>, not \<open>(2, 5)\<close>: the constructor stores the class count and
  builds the last layer with the constant 10. And a freshly constructed network rejects a
  batch of one image.
\<close>

theorem forward_output_shape_counterexample:
  "(\<exists>m. CNN_init 32 32 3 5 0 = Inr m \<and> class_count m = 5
        \<and> forward m (2, 3, 32, 32) = Inr (2, 10))
   \<and> (\<exists>m. CNN_init 32 32 3 10 0 = Inr m \<and> forward m (1, 3, 32, 32) = Inl ValueError)"
  by (simp add: CNN_init_def forward_def relu_def dropout_shape_def)

section \<open>Properties of the trainer\<close>

subsection \<open>Steps that succeed\<close>

lemma compute_accuracy_ok:
  "length labels = length preds \<Longrightarrow> labels \<noteq> [] \<Longrightarrow> \<exists>a. compute_accuracy labels preds = Inr a"
  by (cases labels; cases preds) (simp_all add: compute_accuracy_def)

lemma train_batch_ok:
  assumes "labels \<noteq> []"
    and "\<forall>w mode. length (argmax c (model_forward c w mode batch)) = length labels"
    and "lf \<noteq> 0" and "pf \<noteq> 0" and "train_loader c \<noteq> []"
  shows "\<exists>s' B. train_batch c pf lf e s (batch, labels) = Inr s'
     \<and> step s' = step s + 1 \<and> model_training s' = model_training s
     \<and> trace s' = trace s @ B \<and> list_all (train_event e) B"
proof -
  let ?logits = "model_forward c (model s) (model_training s) batch"
  from assms(1,2) obtain a where a: "compute_accuracy labels (argmax c ?logits) = Inr a"
    using compute_accuracy_ok [of labels "argmax c ?logits"] by auto
  show ?thesis
    using a assms(3,4,5)
    by (simp add: train_batch_def Let_def log_metrics_def print_metrics_def add_scalar_def
        add_scalars_def print_line_def)
qed

lemma train_batches_ok:
  assumes "\<forall>(batch, labels) \<in> set bs. labels \<noteq> []
      \<and> (\<forall>w mode. length (argmax c (model_forward c w mode batch)) = length labels)"
    and "lf \<noteq> 0" and "pf \<noteq> 0" and "train_loader c \<noteq> []"
  shows "\<exists>s' B. train_batches c pf lf e bs s = Inr s'
     \<and> step s' = step s + int (length bs) \<and> model_training s' = model_training s
     \<and> trace s' = trace s @ B \<and> list_all (train_event e) B"
  using assms(1)
proof (induction bs arbitrary: s)
  case Nil
  then show ?case by simp
next
  case (Cons b bs)
  obtain batch labels where b: "b = (batch, labels)" by (cases b)
  from Cons.prems b have ok: "labels \<noteq> []"
    "\<forall>w mode. length (argmax c (model_forward c w mode batch)) = length labels" by auto
  from train_batch_ok [OF ok assms(2,3,4), of e s]
  obtain s1 B1 where s1: "train_batch c pf lf e s (batch, labels) = Inr s1"
    "step s1 = step s + 1" "model_training s1 = model_training s"
    "trace s1 = trace s @ B1" "list_all (train_event e) B1" by blast
  from Cons.prems have "\<forall>(batch, labels) \<in> set bs. labels \<noteq> []
      \<and> (\<forall>w mode. length (argmax c (model_forward c w mode batch)) = length labels)" by simp
  from Cons.IH [OF this, of s1]
  obtain s2 B2 where s2: "train_batches c pf lf e bs s1 = Inr s2"
    "step s2 = step s1 + int (length bs)" "model_training s2 = model_training s1"
    "trace s2 = trace s1 @ B2" "list_all (train_event e) B2" by blast
  have "train_batches c pf lf e (b # bs) s = Inr s2" using b s1(1) s2(1) by simp
  moreover have "step s2 = step s + int (length (b # bs))" using s1(2) s2(2) by simp
  moreover have "model_training s2 = model_training s" using s1(3) s2(3) by simp
  moreover have "trace s2 = trace s @ (B1 @ B2)" using s1(4) s2(4) by simp
  moreover have "list_all (train_event e) (B1 @ B2)" using s1(5) s2(5) by simp
  ultimately show ?case by blast
qed

lemma validate_loop_results:
  "validate_loop c w mode bs (p, l, t) =
     (p @ concat (map (\<lambda>(batch, labels). argmax c (model_forward c w mode batch)) bs),
      l @ concat (map snd bs),
      t + sum_list (map (\<lambda>(batch, labels). criterion c (model_forward c w mode batch) labels) bs))"
  by (induction bs arbitrary: p l t) (auto simp: Let_def)

lemma per_class_loop_ok:
  assumes "length classes = k" and "length f_v = k"
    and "\<forall>(l, p) \<in> set zs. np_index k l \<noteq> Inl IndexError"
  shows "\<exists>r. per_class_loop zs (classes, f_v) = Inr r"
  using assms
proof (induction zs arbitrary: classes f_v)
  case Nil
  then show ?case by simp
next
  case (Cons z zs)
  obtain l p where z: "z = (l, p)" by (cases z)
  from Cons.prems z have "np_index k l \<noteq> Inl IndexError" by simp
  then obtain j where j: "np_index k l = Inr j" "j < k"
    using np_index_cases [of k l] by auto
  from Cons.prems have rest: "\<forall>(l, p) \<in> set zs. np_index k l \<noteq> Inl IndexError" by simp
  have a: "\<exists>r. per_class_loop zs (classes, f_v[j := f_v ! j + 1]) = Inr r"
    using Cons.IH [OF _ _ rest] Cons.prems(1,2) by simp
  have b: "\<exists>r. per_class_loop zs (classes[j := classes ! j + 1], f_v[j := f_v ! j + 1]) = Inr r"
    using Cons.IH [OF _ _ rest] Cons.prems(1,2) by simp
  show ?case
  proof (cases "l = p")
    case True
    with j(1) have "np_index k p = Inr j" by simp
    with True z j b Cons.prems(1,2) show ?thesis by (simp add: Let_def)
  next
    case False
    with z j a Cons.prems(1,2) show ?thesis by (simp add: Let_def)
  qed
qed

lemma compute_per_class_accuracy_ok:
  assumes "length labels = length preds"
    and "\<forall>l \<in> set labels. np_index (length (remdups labels)) l \<noteq> Inl IndexError"
  shows "\<exists>acc. compute_per_class_accuracy labels preds = Inr acc"
proof -
  let ?k = "length (remdups labels)"
  have "\<forall>(l, p) \<in> set (zip labels preds). np_index ?k l \<noteq> Inl IndexError"
    using assms(2) by (auto dest!: set_zip_leftD)
  then obtain r where "per_class_loop (zip labels preds) (replicate ?k 0, replicate ?k 0) = Inr r"
    using per_class_loop_ok [of "replicate ?k 0" ?k "replicate ?k 0" "zip labels preds"] by auto
  then show ?thesis using assms(1)
    by (cases r) (simp add: compute_per_class_accuracy_def)
qed

lemma length_val_preds:
  "predicts_per_example c (val_loader c) \<Longrightarrow> length (val_preds c w) = length (val_labels c)"
proof -
  assume p: "predicts_per_example c (val_loader c)"
  have "\<And>bs. predicts_per_example c bs \<Longrightarrow>
      length (concat (map (\<lambda>(batch, labels). argmax c (model_forward c w False batch)) bs))
      = length (concat (map snd bs))"
  proof -
    fix bs show "predicts_per_example c bs \<Longrightarrow>
      length (concat (map (\<lambda>(batch, labels). argmax c (model_forward c w False batch)) bs))
      = length (concat (map snd bs))"
      by (induction bs) (auto simp: predicts_per_example_def)
  qed
  from this [OF p] show ?thesis by (simp add: val_preds_def val_labels_def)
qed

lemma validate_unfold:
  "validate c s =
     (case compute_per_class_accuracy (val_labels c) (val_preds c (model s)) of
        Inl e \<Rightarrow> Inl e
      | Inr accuracy \<Rightarrow>
          if val_loader c = [] then Inl ZeroDivisionError
          else Inr (s\<lparr>model_training := False,
                 trace := trace s @ [ModelEval,
                   AddScalars ''accuracy'' ''test''
                     (FloatVal (np_divide (np_sum accuracy) (Fin (of_nat (length accuracy))))) (step s),
                   AddScalars ''loss'' ''test''
                     (FloatVal (Fin (sum_list (map (\<lambda>(batch, labels).
                        criterion c (model_forward c (model s) False batch) labels) (val_loader c))
                        / of_nat (length (val_loader c))))) (step s),
                   PrintValidation
                     (sum_list (map (\<lambda>(batch, labels).
                        criterion c (model_forward c (model s) False batch) labels) (val_loader c))
                        / of_nat (length (val_loader c))) accuracy]\<rparr>))"
  by (simp add: validate_def model_eval_def validate_loop_results val_labels_def val_preds_def
      Let_def add_scalars_def print_line_def split: sum.splits)

lemma validate_ok:
  assumes "val_data_ok c"
  shows "\<exists>a b l acc. validate c s = Inr (s\<lparr>model_training := False,
     trace := trace s @ [ModelEval, AddScalars ''accuracy'' ''test'' a (step s),
       AddScalars ''loss'' ''test'' b (step s), PrintValidation l acc]\<rparr>)"
proof -
  from assms have ne: "val_loader c \<noteq> []" and p: "predicts_per_example c (val_loader c)"
    and idx: "\<forall>l \<in> set (val_labels c). np_index (length (remdups (val_labels c))) l \<noteq> Inl IndexError"
    by (simp_all add: val_data_ok_def)
  from compute_per_class_accuracy_ok [OF length_val_preds [OF p, symmetric] idx, of "model s"]
  obtain acc where "compute_per_class_accuracy (val_labels c) (val_preds c (model s)) = Inr acc"
    by blast
  then have "validate c s = Inr (s\<lparr>model_training := False,
     trace := trace s @ [ModelEval,
       AddScalars ''accuracy'' ''test''
         (FloatVal (np_divide (np_sum acc) (Fin (of_nat (length acc))))) (step s),
       AddScalars ''loss'' ''test''
         (FloatVal (Fin (sum_list (map (\<lambda>(batch, labels).
            criterion c (model_forward c (model s) False batch) labels) (val_loader c))
            / of_nat (length (val_loader c))))) (step s),
       PrintValidation
         (sum_list (map (\<lambda>(batch, labels).
            criterion c (model_forward c (model s) False batch) labels) (val_loader c))
            / of_nat (length (val_loader c))) acc]\<rparr>)"
    using ne by (simp add: validate_unfold)
  then show ?thesis by blast
qed

lemma validate_frame:
  "validate c s = Inr s' \<Longrightarrow> step s' = step s \<and> model s' = model s \<and> \<not> model_training s'"
  by (auto simp: validate_unfold split: sum.splits if_splits)
subsection \<open>Which epochs end with a validation\<close>

lemma div_succ_multiple:
  fixes E V :: int
  assumes "1 \<le> V" and "(E + 1) mod V = 0"
  shows "E div V = (E + 1) div V - 1"
proof -
  let ?q = "(E + 1) div V"
  have "E + 1 = V * ?q" using assms(2) by (metis add.right_neutral mult_div_mod_eq)
  then have "E = V * (?q - 1) + (V - 1)" by (simp add: algebra_simps)
  then show ?thesis using assms(1) by (intro int_div_pos_eq [where r = "V - 1"]) simp_all
qed

lemma div_succ_non_multiple:
  fixes E V :: int
  assumes "1 \<le> V" and "(E + 1) mod V \<noteq> 0"
  shows "E div V = (E + 1) div V"
proof -
  let ?q = "(E + 1) div V" and ?r = "(E + 1) mod V"
  have "0 \<le> ?r" "?r < V" using assms(1) by simp_all
  with assms(2) have r: "0 < ?r" "?r < V" by simp_all
  have "E + 1 = V * ?q + ?r" by simp
  then have "E = V * ?q + (?r - 1)" by (simp add: algebra_simps)
  then show ?thesis using r by (intro int_div_pos_eq [where r = "?r - 1"]) simp_all
qed

lemma validation_epochs_upto:
  fixes E V :: int
  assumes "1 \<le> V" and "0 \<le> E"
  shows "filter (\<lambda>e. (e + 1) mod V = 0) [0..E - 1] = map (\<lambda>k. k * V - 1) [1..E div V]"
  using assms(2)
proof (induction E rule: int_ge_induct)
  case base
  then show ?case by simp
next
  case (step E)
  have up: "[0..E + 1 - 1] = [0..E - 1] @ [E]" using step.hyps by (simp add: upto_rec2)
  show ?case
  proof (cases "(E + 1) mod V = 0")
    case True
    have d: "E div V = (E + 1) div V - 1" using div_succ_multiple [OF assms(1) True] .
    have "0 \<le> E div V" using step.hyps assms(1) by (simp add: pos_imp_zdiv_nonneg_iff)
    then have q: "1 \<le> (E + 1) div V" using d by simp
    have e: "(E + 1) div V * V - 1 = E" using True
      by (metis add.right_neutral add_diff_cancel_right' div_mult_mod_eq)
    have "[1..(E + 1) div V] = [1..E div V] @ [(E + 1) div V]"
      using upto_rec2 [OF q] d by simp
    then show ?thesis using up step.IH True e by simp
  next
    case False
    have "E div V = (E + 1) div V" using div_succ_non_multiple [OF assms(1) False] .
    then show ?thesis using up step.IH False by simp
  qed
qed


subsection \<open>Epochs and their traces\<close>

lemma train_epoch_ok:
  assumes "train_data_ok c" and "val_data_ok c" and "V \<noteq> 0" and "lf \<noteq> 0" and "pf \<noteq> 0"
  shows "\<exists>s' T. train_epoch c V pf lf s e = Inr s'
     \<and> step s' = step s + int (length (train_loader c)) \<and> model_training s'
     \<and> trace s' = trace s @ T \<and> epoch_trace V e T"
proof -
  let ?s0 = "model_train s"
  have "\<exists>s1 B. train_batches c pf lf e (train_loader c) ?s0 = Inr s1
     \<and> step s1 = step ?s0 + int (length (train_loader c))
     \<and> model_training s1 = model_training ?s0
     \<and> trace s1 = trace ?s0 @ B \<and> list_all (train_event e) B"
  proof (cases "train_loader c = []")
    case True
    then show ?thesis by simp
  next
    case False
    from assms(1) have "\<forall>(batch, labels) \<in> set (train_loader c). labels \<noteq> []
      \<and> (\<forall>w mode. length (argmax c (model_forward c w mode batch)) = length labels)"
      by (auto simp: train_data_ok_def predicts_per_example_def)
    from train_batches_ok [OF this assms(4,5) False] show ?thesis .
  qed
  then obtain s1 B where s1: "train_batches c pf lf e (train_loader c) ?s0 = Inr s1"
    "step s1 = step s + int (length (train_loader c))" "model_training s1"
    "trace s1 = trace s @ ModelTrain # B" "list_all (train_event e) B"
    by (auto simp: model_train_def)
  let ?s2 = "add_scalar ''epoch'' (IntVal e) (step s1) s1"
  have s2: "step ?s2 = step s1" "model_training ?s2"
    "trace ?s2 = trace s @ ModelTrain # B @ [AddScalar ''epoch'' (IntVal e) (step s1)]"
    using s1 by (simp_all add: add_scalar_def)
  show ?thesis
  proof (cases "(e + 1) mod V = 0")
    case True
    from validate_ok [OF assms(2), of ?s2]
    obtain a b l acc where v: "validate c ?s2 = Inr (?s2\<lparr>model_training := False,
        trace := trace ?s2 @ [ModelEval, AddScalars ''accuracy'' ''test'' a (step ?s2),
          AddScalars ''loss'' ''test'' b (step ?s2), PrintValidation l acc]\<rparr>)"
      by blast
    let ?R = "[ModelEval, AddScalars ''accuracy'' ''test'' a (step s1),
          AddScalars ''loss'' ''test'' b (step s1), PrintValidation l acc, ModelTrain]"
    let ?s4 = "model_train (?s2\<lparr>model_training := False,
        trace := trace ?s2 @ [ModelEval, AddScalars ''accuracy'' ''test'' a (step ?s2),
          AddScalars ''loss'' ''test'' b (step ?s2), PrintValidation l acc]\<rparr>)"
    have run: "train_epoch c V pf lf s e = Inr ?s4"
      using s1(1) v True assms(3) by (simp add: train_epoch_def Let_def)
    have st: "step ?s4 = step s + int (length (train_loader c))" "model_training ?s4"
      using s1(2) s2(1) by (simp_all add: model_train_def)
    have tr: "trace ?s4 = trace s @ (ModelTrain # B @ AddScalar ''epoch'' (IntVal e) (step s1) # ?R)"
      using s2 by (simp add: model_train_def)
    have "validation_events ?R" unfolding validation_events_def by blast
    with s1(5) True
    have sh: "epoch_trace V e (ModelTrain # B @ AddScalar ''epoch'' (IntVal e) (step s1) # ?R)"
      unfolding epoch_trace_def by auto
    from run st tr sh show ?thesis by blast
  next
    case False
    have run: "train_epoch c V pf lf s e = Inr ?s2"
      using s1(1) False assms(3) by (simp add: train_epoch_def Let_def)
    have tr: "trace ?s2 = trace s @ (ModelTrain # B @ AddScalar ''epoch'' (IntVal e) (step s1) # [])"
      using s2 by simp
    from s1(5) False
    have sh: "epoch_trace V e (ModelTrain # B @ AddScalar ''epoch'' (IntVal e) (step s1) # [])"
      unfolding epoch_trace_def by auto
    from run s1(2) s2(1,2) tr sh show ?thesis by metis
  qed
qed

lemma train_epochs_ok:
  assumes "train_data_ok c" and "val_data_ok c" and "V \<noteq> 0" and "lf \<noteq> 0" and "pf \<noteq> 0"
  shows "\<exists>s' T. train_epochs c V pf lf es s = Inr s'
     \<and> step s' = step s + int (length es) * int (length (train_loader c))
     \<and> (model_training s' \<or> (es = [] \<and> model_training s' = model_training s))
     \<and> trace s' = trace s @ T \<and> epochs_trace V es T"
proof (induction es arbitrary: s)
  case Nil
  then show ?case by simp
next
  case (Cons e es)
  from train_epoch_ok [OF assms, of s e]
  obtain s1 T1 where s1: "train_epoch c V pf lf s e = Inr s1"
    "step s1 = step s + int (length (train_loader c))" "model_training s1"
    "trace s1 = trace s @ T1" "epoch_trace V e T1" by blast
  from Cons.IH [of s1]
  obtain s2 T2 where s2: "train_epochs c V pf lf es s1 = Inr s2"
    "step s2 = step s1 + int (length es) * int (length (train_loader c))"
    "model_training s2 \<or> (es = [] \<and> model_training s2 = model_training s1)"
    "trace s2 = trace s1 @ T2" "epochs_trace V es T2" by blast
  have "train_epochs c V pf lf (e # es) s = Inr s2" using s1(1) s2(1) by simp
  moreover have "step s2 = step s + int (length (e # es)) * int (length (train_loader c))"
    using s1(2) s2(2) by (simp add: algebra_simps)
  moreover have "model_training s2" using s1(3) s2(3) by auto
  moreover have "trace s2 = trace s @ (T1 @ T2)" using s1(4) s2(4) by simp
  moreover have "epochs_trace V (e # es) (T1 @ T2)" using s1(5) s2(5) by auto
  ultimately show ?case by blast
qed

lemma validations_train_events:
  "list_all (train_event e) B \<Longrightarrow>
   validations cur (B @ AddScalar ''epoch'' (IntVal e) st # rest) = validations (Some e) rest"
proof (induction B arbitrary: cur)
  case Nil
  then show ?case by simp
next
  case (Cons ev B)
  then have ev: "train_event e ev" and B: "list_all (train_event e) B" by simp_all
  show ?case
  proof (cases ev)
    case (AddScalar tag v st')
    then show ?thesis using ev Cons.IH [OF B] by (cases v) auto
  qed (use ev Cons.IH [OF B] in auto)
qed

lemma validations_epoch:
  assumes "epoch_trace V e T"
  shows "validations cur (T @ rest) =
     (if (e + 1) mod V = 0 then [Some e] else []) @ validations (Some e) rest"
proof -
  from assms obtain B st R where T: "T = ModelTrain # B @ AddScalar ''epoch'' (IntVal e) st # R"
    and B: "list_all (train_event e) B"
    and R: "if (e + 1) mod V = 0 then validation_events R else R = []"
    unfolding epoch_trace_def by blast
  have "validations cur (T @ rest) = validations (Some e) (R @ rest)"
    using validations_train_events [OF B, of cur st "R @ rest"] T by simp
  moreover have "validations (Some e) (R @ rest) =
     (if (e + 1) mod V = 0 then [Some e] else []) @ validations (Some e) rest"
    using R by (auto simp: validation_events_def split: if_splits)
  ultimately show ?thesis by simp
qed

lemma validations_epochs:
  "epochs_trace V es T \<Longrightarrow>
   validations cur (T @ rest) =
     map Some (filter (\<lambda>e. (e + 1) mod V = 0) es)
     @ validations (if es = [] then cur else Some (last es)) rest"
proof (induction es arbitrary: T cur)
  case Nil
  then show ?case by simp
next
  case (Cons e es)
  then obtain T1 T2 where T: "T = T1 @ T2" and T1: "epoch_trace V e T1"
    and T2: "epochs_trace V es T2" by auto
  have "validations cur (T @ rest) =
      (if (e + 1) mod V = 0 then [Some e] else []) @ validations (Some e) (T2 @ rest)"
    using validations_epoch [OF T1, of cur "T2 @ rest"] T by simp
  then show ?case using Cons.IH [OF T2, of "Some e"] by simp
qed

lemma back_train_events:
  "list_all (train_event e) B \<Longrightarrow>
   back_to_training False (B @ rest) = back_to_training False rest"
proof (induction B)
  case Nil
  then show ?case by simp
next
  case (Cons ev B)
  then have ev: "train_event e ev" and B: "list_all (train_event e) B" by simp_all
  show ?case using ev Cons.IH [OF B] by (cases ev) auto
qed

lemma back_epoch:
  assumes "epoch_trace V e T"
  shows "back_to_training pending (T @ rest) = back_to_training False rest"
proof -
  from assms obtain B st R where T: "T = ModelTrain # B @ AddScalar ''epoch'' (IntVal e) st # R"
    and B: "list_all (train_event e) B"
    and R: "if (e + 1) mod V = 0 then validation_events R else R = []"
    unfolding epoch_trace_def by blast
  have "back_to_training pending (T @ rest) = back_to_training False (R @ rest)"
    using back_train_events [OF B, of "AddScalar ''epoch'' (IntVal e) st # R @ rest"] T by simp
  moreover have "back_to_training False (R @ rest) = back_to_training False rest"
    using R by (auto simp: validation_events_def split: if_splits)
  ultimately show ?thesis by simp
qed

lemma back_epochs:
  "epochs_trace V es T \<Longrightarrow> back_to_training False (T @ rest) = back_to_training False rest"
proof (induction es arbitrary: T)
  case Nil
  then show ?case by simp
next
  case (Cons e es)
  then obtain T1 T2 where T: "T = T1 @ T2" and T1: "epoch_trace V e T1"
    and T2: "epochs_trace V es T2" by auto
  show ?case using back_epoch [OF T1, of False "T2 @ rest"] Cons.IH [OF T2] T by simp
qed

lemma length_validations:
  "length (validations cur T) = length (filter (\<lambda>ev. ev = ModelEval) T)"
  by (induction cur T rule: validations.induct) auto

subsection \<open>Validation schedule, step counter and validation metrics\<close>

lemma np_sum_Fin: "np_sum (map (\<lambda>i. Fin (q i)) xs) = Fin (sum_list (map q xs))"
proof -
  have "\<And>a. foldl np_add (Fin a) (map (\<lambda>i. Fin (q i)) xs) = Fin (a + sum_list (map q xs))"
  proof -
    fix a show "foldl np_add (Fin a) (map (\<lambda>i. Fin (q i)) xs) = Fin (a + sum_list (map q xs))"
      by (induction xs arbitrary: a) (simp_all add: add.assoc)
  qed
  from this [of 0] show ?thesis by (simp add: np_sum_def)
qed

lemma train_ok:
  assumes "train_data_ok c" and "val_data_ok c" and "V \<noteq> 0" and "lf \<noteq> 0" and "pf \<noteq> 0"
  shows "\<exists>s' T. train c E V pf lf start s = Inr s'
     \<and> step s' = step s + int (length [start..E - 1]) * int (length (train_loader c))
     \<and> model_training s' \<and> trace s' = trace s @ ModelTrain # T
     \<and> epochs_trace V [start..E - 1] T"
proof -
  from train_epochs_ok [OF assms, of "[start..E - 1]" "model_train s"]
  obtain s' T where s': "train_epochs c V pf lf [start..E - 1] (model_train s) = Inr s'"
    "step s' = step (model_train s) + int (length [start..E - 1]) * int (length (train_loader c))"
    "model_training s' \<or> ([start..E - 1] = [] \<and> model_training s' = model_training (model_train s))"
    "trace s' = trace (model_train s) @ T" "epochs_trace V [start..E - 1] T" by blast
  have "train c E V pf lf start s = Inr s'" using s'(1) by (simp add: train_def)
  moreover have "step s' = step s + int (length [start..E - 1]) * int (length (train_loader c))"
    using s'(2) by (simp add: model_train_def)
  moreover have "model_training s'" using s'(3) by (auto simp: model_train_def)
  moreover have "trace s' = trace s @ ModelTrain # T" using s'(4) by (simp add: model_train_def)
  ultimately show ?thesis using s'(5) by blast
qed

text \<open>
  C5. For \<open>E \<ge> 0\<close> epochs and validation frequency \<open>V \<ge> 1\<close>, with non-zero logging and
  printing frequencies and data on which the steps succeed, \<^const>\<open>train\<close> started at epoch 0
  returns, and the trace it adds shows exactly \<open>E div V\<close> validations, at the epochs
  \<open>V - 1, 2V - 1, \<dots>\<close>; each of them is followed by the switch back to training mode, in which
  the model is left.
\<close>

theorem train_validation_schedule:
  assumes "0 \<le> E" and "1 \<le> V" and "lf \<noteq> 0" and "pf \<noteq> 0"
    and "train_data_ok c" and "val_data_ok c"
  shows "\<exists>s' T. train c E V pf lf 0 s = Inr s' \<and> trace s' = trace s @ T
     \<and> validations None T = map (\<lambda>k. Some (k * V - 1)) [1..E div V]
     \<and> length (filter (\<lambda>ev. ev = ModelEval) T) = nat (E div V)
     \<and> back_to_training False T \<and> model_training s'"
proof -
  from assms(2) have V: "V \<noteq> 0" by simp
  from train_ok [OF assms(5,6) V assms(3,4), of E 0 s]
  obtain s' T where s': "train c E V pf lf 0 s = Inr s'" "model_training s'"
    "trace s' = trace s @ ModelTrain # T" "epochs_trace V [0..E - 1] T" by blast
  have "validations None (ModelTrain # T) = map Some (filter (\<lambda>e. (e + 1) mod V = 0) [0..E - 1])"
    using validations_epochs [OF s'(4), of None "[]"] by simp
  then have v: "validations None (ModelTrain # T) = map (\<lambda>k. Some (k * V - 1)) [1..E div V]"
    by (simp add: validation_epochs_upto [OF assms(2,1)] comp_def)
  have "length (filter (\<lambda>ev. ev = ModelEval) (ModelTrain # T))
      = length (validations None (ModelTrain # T))"
    by (simp only: length_validations)
  also have "\<dots> = nat (E div V)" unfolding v by simp
  finally have n: "length (filter (\<lambda>ev. ev = ModelEval) (ModelTrain # T)) = nat (E div V)" .
  have b: "back_to_training False (ModelTrain # T)"
    using back_epochs [OF s'(4), of "[]"] by simp
  from s'(1,2,3) v n b show ?thesis by blast
qed

theorem train_validation_schedule_witness:
  "train_data_ok (echo [([0, 1], [0, 1]), ([1], [0])] [([0, 1, 1], [0, 0, 1])])
   \<and> val_data_ok (echo [([0, 1], [0, 1]), ([1], [0])] [([0, 1, 1], [0, 0, 1])])
   \<and> (\<exists>s' T. train (echo [([0, 1], [0, 1]), ([1], [0])] [([0, 1, 1], [0, 0, 1])]) 5 2 20 1 0
                 (Trainer_init () True) = Inr s'
         \<and> trace s' = T
         \<and> validations None T = [Some 1, Some 3]
         \<and> length (filter (\<lambda>ev. ev = ModelEval) T) = 2
         \<and> back_to_training False T \<and> model_training s')"
proof -
  let ?c = "echo [([0, 1], [0, 1]), ([1], [0])] [([0, 1, 1], [0, 0, 1])]"
  have t: "train_data_ok ?c"
    by (simp add: train_data_ok_def predicts_per_example_def echo_def)
  have v: "val_data_ok ?c"
    by (simp add: val_data_ok_def predicts_per_example_def val_labels_def echo_def np_index_def)
  have u: "[1..5 div 2 :: int] = [1, 2]" by (simp add: upto_rec1)
  from train_validation_schedule [of 5 2 1 20 ?c "Trainer_init () True"] t v u
  show ?thesis by (simp add: Trainer_init_def)
qed

text \<open>
  C6. The step counter of a new trainer is 0; every training batch that is processed
  increases it by exactly 1; and a whole run of \<^const>\<open>train\<close> adds to it the number of
  epochs times the number of batches of a pass, that is the total number of training batches,
  whatever validations happen in between. From a new trainer and start epoch 0 it ends at
  exactly that total.
\<close>

theorem global_step_counts_batches:
  assumes "V \<noteq> 0" and "lf \<noteq> 0" and "pf \<noteq> 0" and "train_data_ok c" and "val_data_ok c"
  shows "step (Trainer_init w mode) = 0
     \<and> (\<forall>b \<in> set (train_loader c). \<exists>s'. train_batch c pf lf e s b = Inr s' \<and> step s' = step s + 1)
     \<and> (\<exists>s'. train c E V pf lf start s = Inr s'
           \<and> step s' = step s + int (length [start..E - 1]) * int (length (train_loader c)))
     \<and> (0 \<le> E \<longrightarrow> (\<exists>s'. train c E V pf lf 0 (Trainer_init w mode) = Inr s'
           \<and> step s' = E * int (length (train_loader c))))"
proof (intro conjI ballI impI)
  show "step (Trainer_init w mode) = 0" by (simp add: Trainer_init_def)
next
  fix b assume b: "b \<in> set (train_loader c)"
  obtain batch labels where bl: "b = (batch, labels)" by (cases b)
  from assms(4) b bl have ok: "labels \<noteq> []"
    "\<forall>w mode. length (argmax c (model_forward c w mode batch)) = length labels"
    by (auto simp: train_data_ok_def predicts_per_example_def)
  from b have ne: "train_loader c \<noteq> []" by auto
  from train_batch_ok [OF ok assms(2,3) ne, of e s] bl
  show "\<exists>s'. train_batch c pf lf e s b = Inr s' \<and> step s' = step s + 1" by blast
next
  from train_ok [OF assms(4,5,1,2,3), of E start s]
  show "\<exists>s'. train c E V pf lf start s = Inr s'
           \<and> step s' = step s + int (length [start..E - 1]) * int (length (train_loader c))"
    by blast
next
  assume E: "0 \<le> E"
  from train_ok [OF assms(4,5,1,2,3), of E 0 "Trainer_init w mode"]
  obtain s' where "train c E V pf lf 0 (Trainer_init w mode) = Inr s'"
     "step s' = step (Trainer_init w mode) + int (length [0..E - 1]) * int (length (train_loader c))"
    by blast
  then show "\<exists>s'. train c E V pf lf 0 (Trainer_init w mode) = Inr s'
           \<and> step s' = E * int (length (train_loader c))"
    using E by (simp add: Trainer_init_def)
qed

theorem global_step_counts_batches_witness:
  "train_data_ok (echo [([0, 1], [0, 1]), ([1], [0])] [([0, 1, 1], [0, 0, 1])])
   \<and> val_data_ok (echo [([0, 1], [0, 1]), ([1], [0])] [([0, 1, 1], [0, 0, 1])])
   \<and> (\<exists>s'. train (echo [([0, 1], [0, 1]), ([1], [0])] [([0, 1, 1], [0, 0, 1])]) 5 2 20 1 0
                 (Trainer_init () True) = Inr s' \<and> step s' = 10)
   \<and> (\<exists>s'. train_batch (echo [([0, 1], [0, 1]), ([1], [0])] [([0, 1, 1], [0, 0, 1])]) 20 1 0
                 (Trainer_init () True) ([1], [0]) = Inr s' \<and> step s' = 1)"
proof -
  let ?c = "echo [([0, 1], [0, 1]), ([1], [0])] [([0, 1, 1], [0, 0, 1])]"
  have t: "train_data_ok ?c"
    by (simp add: train_data_ok_def predicts_per_example_def echo_def)
  have v: "val_data_ok ?c"
    by (simp add: val_data_ok_def predicts_per_example_def val_labels_def echo_def np_index_def)
  have l: "train_loader ?c = [([0, 1], [0, 1]), ([1], [0])]" by (simp add: echo_def)
  have nz: "(2::int) \<noteq> 0" "(1::int) \<noteq> 0" "(20::int) \<noteq> 0" by simp_all
  note g = global_step_counts_batches [OF nz t v, where w = "()" and mode = True and e = 0
      and s = "Trainer_init () True" and E = 5 and start = 0]
  from g have a: "\<forall>b \<in> set (train_loader ?c).
          \<exists>s'. train_batch ?c 20 1 0 (Trainer_init () True) b = Inr s'
             \<and> step s' = step (Trainer_init () True :: unit Trainer) + 1"
    by blast
  have "([1], [0]) \<in> set (train_loader ?c)" by (simp add: l)
  with a obtain s1 where s1: "train_batch ?c 20 1 0 (Trainer_init () True) ([1], [0]) = Inr s1"
    "step s1 = step (Trainer_init () True :: unit Trainer) + 1" by blast
  from s1(2) have s1': "step s1 = 1" by (simp add: Trainer_init_def)
  from g obtain s2 where s2: "train ?c 5 2 20 1 0 (Trainer_init () True) = Inr s2"
    "step s2 = 5 * int (length (train_loader ?c))" by auto
  from s2(2) have s2': "step s2 = 10" by (simp add: l)
  from t v s1(1) s1' s2(1) s2' show ?thesis by blast
qed

text \<open>
  C8. A call of \<^const>\<open>validate\<close> that returns leaves the step counter as it was (and the
  model's parameters too); it only switches the mode flag and appends to the trace, where its
  entries carry the unchanged step. On validation data that the metrics accept it does return.
  The epoch index is a local variable of the training loop: \<^const>\<open>validate\<close> neither
  receives nor returns it.
\<close>

theorem validate_preserves_training_state:
  "(\<forall>s'. validate c s = Inr s' \<longrightarrow>
        step s' = step s \<and> model s' = model s
        \<and> (\<exists>a b l acc. trace s' = trace s @ [ModelEval,
              AddScalars ''accuracy'' ''test'' a (step s),
              AddScalars ''loss'' ''test'' b (step s), PrintValidation l acc]))
   \<and> (val_data_ok c \<longrightarrow> (\<exists>s'. validate c s = Inr s'))"
proof (intro conjI allI impI)
  fix s' assume "validate c s = Inr s'"
  then show "step s' = step s" "model s' = model s"
    "\<exists>a b l acc. trace s' = trace s @ [ModelEval,
              AddScalars ''accuracy'' ''test'' a (step s),
              AddScalars ''loss'' ''test'' b (step s), PrintValidation l acc]"
    by (auto simp: validate_unfold split: sum.splits if_splits)
next
  assume "val_data_ok c"
  from validate_ok [OF this, of s] show "\<exists>s'. validate c s = Inr s'" by blast
qed

theorem validate_preserves_training_state_witness:
  "val_data_ok (echo [] [([0, 1, 1], [0, 0, 1])])
   \<and> (\<exists>s'. validate (echo [] [([0, 1, 1], [0, 0, 1])])
              \<lparr>model = (), model_training = True, step = 7, trace = []\<rparr> = Inr s'
         \<and> step s' = 7)"
proof -
  let ?c = "echo [] [([0, 1, 1], [0, 0, 1])]"
  let ?s = "\<lparr>model = (), model_training = True, step = 7, trace = []\<rparr>"
  have v: "val_data_ok ?c"
    by (simp add: val_data_ok_def predicts_per_example_def val_labels_def echo_def np_index_def)
  from validate_preserves_training_state [of ?c ?s] v
  obtain s' where s': "validate ?c ?s = Inr s'" by blast
  with validate_preserves_training_state [of ?c ?s] have "step s' = 7" by simp
  with v s' show ?thesis by blast
qed

lemma validate_macro_average:
  assumes ne: "val_loader c \<noteq> []" and p: "predicts_per_example c (val_loader c)"
    and k: "0 < k" and cont: "set (val_labels c) = {0..<int k}"
  shows "\<exists>s' T. validate c s = Inr s' \<and> trace s' = trace s @ T
     \<and> test_accuracy T =
         [FloatVal (Fin (sum_list (map (\<lambda>i.
             of_nat (class_correct (val_labels c) (val_preds c (model s)) (int i))
             / of_nat (class_total (val_labels c) (int i))) [0..<k]) / of_nat k))]"
proof -
  let ?L = "val_labels c" and ?P = "val_preds c (model s)"
  let ?q = "\<lambda>i. (of_nat (class_correct ?L ?P (int i)) / of_nat (class_total ?L (int i)) :: rat)"
  have len: "length ?L = length ?P" using length_val_preds [OF p] by simp
  have acc: "compute_per_class_accuracy ?L ?P = Inr (map (\<lambda>i. Fin (?q i)) [0..<k])"
    by (rule per_class_contiguous [OF len cont])
  have mean: "np_divide (np_sum (map (\<lambda>i. Fin (?q i)) [0..<k])) (Fin (of_nat k))
      = Fin (sum_list (map ?q [0..<k]) / of_nat k)"
    using k by (simp add: np_sum_Fin)
  show ?thesis
    unfolding validate_unfold acc using ne by (simp add: mean)
qed

text \<open>
  C9 (as amended). The one validation accuracy that \<^const>\<open>validate\<close> writes to the summary
  writer is the unweighted mean of the per-class accuracies, not the fraction of validation
  examples predicted correctly. The two can differ when the classes differ in size: for
  labels \<open>[0,0,1]\<close> and predictions \<open>[0,1,1]\<close> the logged value is \<open>3/4\<close> and the overall
  fraction is \<open>2/3\<close>.
\<close>

theorem validate_logs_macro_average:
  "(val_loader c \<noteq> [] \<and> predicts_per_example c (val_loader c)
      \<and> 0 < k \<and> set (val_labels c) = {0..<int k} \<longrightarrow>
      (\<exists>s' T. validate c s = Inr s' \<and> trace s' = trace s @ T
         \<and> test_accuracy T =
             [FloatVal (Fin (sum_list (map (\<lambda>i.
                 of_nat (class_correct (val_labels c) (val_preds c (model s)) (int i))
                 / of_nat (class_total (val_labels c) (int i))) [0..<k]) / of_nat k))]))
   \<and> (\<exists>s'. validate (echo [] [([0, 1, 1], [0, 0, 1])]) (Trainer_init () True) = Inr s'
         \<and> test_accuracy (trace s') = [FloatVal (Fin (3 / 4))])
   \<and> compute_accuracy [0, 0, 1] [0, 1, 1] = Inr (2 / 3)"
proof (intro conjI impI)
  assume "val_loader c \<noteq> [] \<and> predicts_per_example c (val_loader c)
      \<and> 0 < k \<and> set (val_labels c) = {0..<int k}"
  then show "\<exists>s' T. validate c s = Inr s' \<and> trace s' = trace s @ T
         \<and> test_accuracy T =
             [FloatVal (Fin (sum_list (map (\<lambda>i.
                 of_nat (class_correct (val_labels c) (val_preds c (model s)) (int i))
                 / of_nat (class_total (val_labels c) (int i))) [0..<k]) / of_nat k))]"
    using validate_macro_average [of c k s] by blast
next
  show "\<exists>s'. validate (echo [] [([0, 1, 1], [0, 0, 1])]) (Trainer_init () True) = Inr s'
         \<and> test_accuracy (trace s') = [FloatVal (Fin (3 / 4))]"
    by (simp add: validate_unfold val_labels_def val_preds_def echo_def Trainer_init_def
        compute_per_class_accuracy_def np_index_def np_sum_def)
next
  show "compute_accuracy [0, 0, 1] [0, 1, 1] = Inr (2 / 3)"
    by (simp add: compute_accuracy_def eq_count_def)
qed

theorem validate_logs_macro_average_witness:
  "val_loader (echo [] [([0, 1], [0, 0]), ([1], [1])]) \<noteq> []
   \<and> predicts_per_example (echo [] [([0, 1], [0, 0]), ([1], [1])])
        (val_loader (echo [] [([0, 1], [0, 0]), ([1], [1])]))
   \<and> set (val_labels (echo [] [([0, 1], [0, 0]), ([1], [1])])) = {0..<int 2}
   \<and> (\<exists>s' T. validate (echo [] [([0, 1], [0, 0]), ([1], [1])]) (Trainer_init () True) = Inr s'
         \<and> trace s' = T \<and> test_accuracy T = [FloatVal (Fin (3 / 4))])"
proof -
  let ?c = "echo [] [([0, 1], [0, 0]), ([1], [1])]"
  have a: "val_loader ?c \<noteq> []" by (simp add: echo_def)
  have b: "predicts_per_example ?c (val_loader ?c)"
    by (simp add: predicts_per_example_def echo_def)
  have L: "val_labels ?c = [0, 0, 1]" by (simp add: val_labels_def echo_def)
  have P: "val_preds ?c () = [0, 1, 1]" by (simp add: val_preds_def echo_def)
  have d: "set (val_labels ?c) = {0..<int 2}" unfolding L by auto
  have u: "[0..<2] = [0, 1]" by (simp add: upt_rec)
  from validate_logs_macro_average [of ?c 2 "Trainer_init () True"] a b d
  obtain s' T where s': "validate ?c (Trainer_init () True) = Inr s'"
    "trace s' = trace (Trainer_init () True :: unit Trainer) @ T"
    "test_accuracy T =
       [FloatVal (Fin (sum_list (map (\<lambda>i.
           of_nat (class_correct (val_labels ?c)
              (val_preds ?c (model (Trainer_init () True :: unit Trainer))) (int i))
           / of_nat (class_total (val_labels ?c) (int i))) [0..<2]) / of_nat 2))]"
    by auto
  from s'(2) have t: "trace s' = T" by (simp add: Trainer_init_def)
  have m: "model (Trainer_init () True :: unit Trainer) = ()" by simp
  from s'(3) have v: "test_accuracy T = [FloatVal (Fin (3 / 4))]"
    unfolding m L P u by (simp add: class_correct_def class_total_def)
  from a b d s'(1) t v show ?thesis by blast
qed

text \<open>
  The claim as first stated says that the two values differ whenever the class sizes differ.
  With labels \<open>[0,0,1]\<close>, all predicted correctly, the classes have sizes 2 and 1, and the
  logged value and the overall fraction are both 1.
\<close>

theorem validate_logs_macro_average_counterexample:
  "class_total [0, 0, 1] 0 \<noteq> class_total [0, 0, 1] 1
   \<and> (\<exists>s'. validate (echo [] [([0, 0, 1], [0, 0, 1])]) (Trainer_init () True) = Inr s'
         \<and> test_accuracy (trace s') = [FloatVal (Fin 1)])
   \<and> compute_accuracy [0, 0, 1] [0, 0, 1] = Inr 1"
  by (simp add: validate_unfold val_labels_def val_preds_def echo_def Trainer_init_def
      compute_per_class_accuracy_def np_index_def np_sum_def class_total_def
      compute_accuracy_def eq_count_def)

section \<open>Properties of the run-directory naming\<close>

declare log_dir_loop.simps [simp del]

lemma log_dir_loop_found:
  assumes "i \<le> j" and "j < 1000"
    and "\<not> path_exists os (joinpath os (log_dir args) (pre @ str_int j))"
    and "\<forall>m. i \<le> m \<and> m < j \<longrightarrow> path_exists os (joinpath os (log_dir args) (pre @ str_int m))"
  shows "log_dir_loop os args pre i tb = str_path os (joinpath os (log_dir args) (pre @ str_int j))"
  using assms
proof (induction os args pre i tb rule: log_dir_loop.induct)
  case (1 os args pre i tb)
  show ?case
  proof (cases "i = j")
    case True
    with "1.prems" show ?thesis by (subst log_dir_loop.simps) simp
  next
    case False
    with "1.prems" have lt: "i < j" by simp
    with "1.prems" have ex: "path_exists os (joinpath os (log_dir args) (pre @ str_int i))" by simp
    have i: "i < 1000" using lt "1.prems"(2) by simp
    have "log_dir_loop os args pre (i + 1) (joinpath os (log_dir args) (pre @ str_int i))
        = str_path os (joinpath os (log_dir args) (pre @ str_int j))"
      using "1.IH" [OF i refl] ex lt "1.prems" by simp
    then show ?thesis using i ex by (subst log_dir_loop.simps) simp
  qed
qed

lemma log_dir_loop_exhausted:
  assumes "\<forall>m. i \<le> m \<and> m < 1000 \<longrightarrow> path_exists os (joinpath os (log_dir args) (pre @ str_int m))"
    and "i \<le> 1000"
    and "i = 1000 \<longrightarrow> tb = joinpath os (log_dir args) (pre @ str_int 999)"
  shows "log_dir_loop os args pre i tb = str_path os (joinpath os (log_dir args) (pre @ str_int 999))"
  using assms
proof (induction os args pre i tb rule: log_dir_loop.induct)
  case (1 os args pre i tb)
  show ?case
  proof (cases "i < 1000")
    case True
    with "1.prems" have ex: "path_exists os (joinpath os (log_dir args) (pre @ str_int i))" by simp
    have "log_dir_loop os args pre (i + 1) (joinpath os (log_dir args) (pre @ str_int i))
        = str_path os (joinpath os (log_dir args) (pre @ str_int 999))"
      using "1.IH" [OF True refl] ex True "1.prems"(1) by auto
    then show ?thesis using True ex by (subst log_dir_loop.simps) simp
  next
    case False
    with "1.prems" show ?thesis by (subst log_dir_loop.simps) simp
  qed
qed

text \<open>
  C4. For every configuration and base log directory, \<^const>\<open>get_summary_writer_log_dir\<close>
  returns the path made of the descriptive prefix and the smallest suffix \<open>i\<close>, counted from 0
  and below 1000, whose path does not exist yet; when all 1000 candidates exist it returns the
  candidate with suffix 999. The function is total: it raises nothing.
\<close>

theorem get_summary_writer_log_dir_first_free:
  "(0 \<le> i \<and> i < 1000 \<and> \<not> path_exists os (run_dir os args n i)
      \<and> (\<forall>j. 0 \<le> j \<and> j < i \<longrightarrow> path_exists os (run_dir os args n j))
      \<longrightarrow> get_summary_writer_log_dir os args n = str_path os (run_dir os args n i))
   \<and> ((\<forall>j. 0 \<le> j \<and> j < 1000 \<longrightarrow> path_exists os (run_dir os args n j))
      \<longrightarrow> get_summary_writer_log_dir os args n = str_path os (run_dir os args n 999))"
proof (intro conjI impI)
  assume a: "0 \<le> i \<and> i < 1000 \<and> \<not> path_exists os (run_dir os args n i)
      \<and> (\<forall>j. 0 \<le> j \<and> j < i \<longrightarrow> path_exists os (run_dir os args n j))"
  then show "get_summary_writer_log_dir os args n = str_path os (run_dir os args n i)"
    unfolding get_summary_writer_log_dir_def run_dir_def Let_def
    by (intro log_dir_loop_found) simp_all
next
  assume "\<forall>j. 0 \<le> j \<and> j < 1000 \<longrightarrow> path_exists os (run_dir os args n j)"
  then show "get_summary_writer_log_dir os args n = str_path os (run_dir os args n 999)"
    unfolding get_summary_writer_log_dir_def run_dir_def Let_def
    by (intro log_dir_loop_exhausted) simp_all
qed

lemma default_prefix:
  "tb_log_dir_prefix (posix ex) default_args 4261514 =
     ''CNN_parameters=4261514_bn_bs=128_dropout=0_lr=0.01_momentum=0.9_brightness=0_run_''"
  by (simp add: tb_log_dir_prefix_def posix_def default_args_def str_int_def digit_char_def)

theorem get_summary_writer_log_dir_first_free_witness:
  "path_exists (posix (\<lambda>p. p = ''logs/CNN_parameters=4261514_bn_bs=128_dropout=0_lr=0.01_momentum=0.9_brightness=0_run_0''))
     (run_dir (posix (\<lambda>p. p = ''logs/CNN_parameters=4261514_bn_bs=128_dropout=0_lr=0.01_momentum=0.9_brightness=0_run_0'')) default_args 4261514 0)
   \<and> \<not> path_exists (posix (\<lambda>p. p = ''logs/CNN_parameters=4261514_bn_bs=128_dropout=0_lr=0.01_momentum=0.9_brightness=0_run_0''))
     (run_dir (posix (\<lambda>p. p = ''logs/CNN_parameters=4261514_bn_bs=128_dropout=0_lr=0.01_momentum=0.9_brightness=0_run_0'')) default_args 4261514 1)
   \<and> get_summary_writer_log_dir (posix (\<lambda>p. p = ''logs/CNN_parameters=4261514_bn_bs=128_dropout=0_lr=0.01_momentum=0.9_brightness=0_run_0'')) default_args 4261514
       = ''logs/CNN_parameters=4261514_bn_bs=128_dropout=0_lr=0.01_momentum=0.9_brightness=0_run_1''
   \<and> get_summary_writer_log_dir (posix (\<lambda>p. True)) default_args 4261514
       = ''logs/CNN_parameters=4261514_bn_bs=128_dropout=0_lr=0.01_momentum=0.9_brightness=0_run_999''"
proof -
  let ?ex = "\<lambda>p. p = ''logs/CNN_parameters=4261514_bn_bs=128_dropout=0_lr=0.01_momentum=0.9_brightness=0_run_0''"
  have dir: "\<And>ex i. run_dir (posix ex) default_args 4261514 i =
      ''logs/CNN_parameters=4261514_bn_bs=128_dropout=0_lr=0.01_momentum=0.9_brightness=0_run_'' @ str_int i"
    unfolding run_dir_def default_prefix by (simp add: posix_def default_args_def)
  have ex: "\<And>ex p. path_exists (posix ex) p = ex p" "\<And>ex p. str_path (posix ex) p = p"
    by (simp_all add: posix_def)
  have s0: "str_int 0 = ''0''" and s1: "str_int 1 = ''1''" and s999: "str_int 999 = ''999''"
    by (simp_all add: str_int_def digit_char_def)
  have a: "path_exists (posix ?ex) (run_dir (posix ?ex) default_args 4261514 0)"
    by (simp add: dir ex s0)
  have b: "\<not> path_exists (posix ?ex) (run_dir (posix ?ex) default_args 4261514 1)"
    by (simp add: dir ex s1)
  have below: "\<forall>j. 0 \<le> j \<and> j < 1 \<longrightarrow> path_exists (posix ?ex) (run_dir (posix ?ex) default_args 4261514 j)"
  proof (intro allI impI)
    fix j :: int
    assume "0 \<le> j \<and> j < 1"
    then have "j = 0" by simp
    with a show "path_exists (posix ?ex) (run_dir (posix ?ex) default_args 4261514 j)" by simp
  qed
  have c: "get_summary_writer_log_dir (posix ?ex) default_args 4261514
      = ''logs/CNN_parameters=4261514_bn_bs=128_dropout=0_lr=0.01_momentum=0.9_brightness=0_run_1''"
    using get_summary_writer_log_dir_first_free [of 1 "posix ?ex" default_args 4261514] b below
    by (simp add: dir ex s1)
  have all: "\<forall>j. 0 \<le> j \<and> j < 1000 \<longrightarrow>
      path_exists (posix (\<lambda>p. True)) (run_dir (posix (\<lambda>p. True)) default_args 4261514 j)"
    by (simp add: ex)
  have d: "get_summary_writer_log_dir (posix (\<lambda>p. True)) default_args 4261514
      = ''logs/CNN_parameters=4261514_bn_bs=128_dropout=0_lr=0.01_momentum=0.9_brightness=0_run_999''"
    using get_summary_writer_log_dir_first_free [of 0 "posix (\<lambda>p. True)" default_args 4261514] all
    by (simp add: dir ex s999)
  from a b c d show ?thesis by blast
qed

end
